theory Spec2Isabelle
  imports Complex_Main "HOL-Library.AList" "HOL-Library.Sublist"
begin

section \<open>Python values used by the server\<close>

text \<open>
  Strings are HOL strings.  \<open>str.lower()\<close> is modelled on ASCII text: the letters
  \<open>A\<close> .. \<open>Z\<close> move to \<open>a\<close> .. \<open>z\<close>, every other character stays.
  \<open>sub in s\<close> on two strings is the contiguous-substring test.
\<close>

definition lower_char :: "char \<Rightarrow> char" where
  "lower_char c =
     (let n = (of_char c :: nat) in if 65 \<le> n \<and> n \<le> 90 then char_of (n + 32) else c)"

definition str_lower :: "string \<Rightarrow> string" where
  "str_lower s = map lower_char s"

fun str_in :: "string \<Rightarrow> string \<Rightarrow> bool" where
  "str_in sub [] = (sub = [])"
| "str_in sub (c # cs) = (prefix sub (c # cs) \<or> str_in sub cs)"

text \<open>\<open>s.replace(a, b)\<close> for single characters \<open>a\<close>, \<open>b\<close>.\<close>

definition str_replace_char :: "char \<Rightarrow> char \<Rightarrow> string \<Rightarrow> string" where
  "str_replace_char a b s = map (\<lambda>c. if c = a then b else c) s"

datatype py_error = ValueError | ValidationError | AnalyzerError

section \<open>Enumerations of \<open>graph/schemas.py\<close>\<close>

datatype DamageLevel = NONE | MINOR | MODERATE | SEVERE | CATASTROPHIC

datatype Urgency = CRITICAL | HIGH | MEDIUM | LOW

datatype Verdict = CONSISTENT | CONTRADICTION | UNCERTAIN | TEMPORAL_GAP

datatype ActionType = ACCEPT | FLAG_FOR_HUMAN | REQUEST_VERIFICATION | WAIT

text \<open>\<open>Urgency(level)\<close>: the member whose value is the string, \<open>ValueError\<close> otherwise.\<close>

definition Urgency_of_value :: "string \<Rightarrow> py_error + Urgency" where
  "Urgency_of_value s =
     (if s = ''critical'' then Inr CRITICAL
      else if s = ''high'' then Inr HIGH
      else if s = ''medium'' then Inr MEDIUM
      else if s = ''low'' then Inr LOW
      else Inl ValueError)"

datatype SourceType = IMAGE | AUDIO | TEXT | DOCUMENT | SATELLITE

text \<open>The \<open>value\<close> of a member of a string enumeration.\<close>

fun Verdict_value :: "Verdict \<Rightarrow> string" where
  "Verdict_value CONSISTENT = ''consistent''"
| "Verdict_value CONTRADICTION = ''contradiction''"
| "Verdict_value UNCERTAIN = ''uncertain''"
| "Verdict_value TEMPORAL_GAP = ''temporal_gap''"

section \<open>Records of \<open>graph/schemas.py\<close>\<close>

text \<open>
  A \<open>datetime\<close> is a count of microseconds; a Python \<open>float\<close> is a real number (no
  rounding, no NaN); a \<open>dict\<close> is an association list in insertion order, read with
  \<open>map_of\<close>, written with \<open>AList.update\<close> (an existing key keeps its place, a new key
  goes last) and \<open>AList.delete\<close>.  Every id of a dictionary of the graph holds an object
  of its own.  A \<open>Literal[...]\<close> field holds the string itself: assignment does not
  validate it.  Field names shared by several classes carry the class as a prefix.
\<close>

type_synonym datetime = int

datatype pyval =
    PNone
  | PBool bool
  | PInt int
  | PFloat real
  | PStr string
  | PDatetime datetime
  | PList "pyval list"
  | PDict "(string \<times> pyval) list"

type_synonym pydict = "(string \<times> pyval) list"

record Location =
  lat :: real
  lng :: real
  address :: "string option"
  sector :: "string option"
  loc_name :: "string option"

record SourceReference =
  source_id :: string
  source_type :: SourceType
  src_timestamp :: datetime
  raw_content_ref :: string
  credibility_score :: real

record IncidentNode =
  inc_id :: string
  inc_type :: string
  incident_type :: string
  inc_location :: Location
  damage_level :: DamageLevel
  inc_urgency :: Urgency
  trapped_min :: "int option"
  trapped_max :: "int option"
  injured_min :: "int option"
  injured_max :: "int option"
  inc_confidence :: real
  inc_sources :: "SourceReference list"
  inc_created_at :: datetime
  inc_updated_at :: datetime
  inc_contradictions :: "string list"
  decay_rate :: real
  inc_status :: string
  assigned_resources :: "string list"

record ResourceNode =
  res_id :: string
  res_type :: string
  resource_type :: string
  unit_id :: string
  current_location :: Location
  destination :: "Location option"
  res_status :: string
  assigned_incident :: "string option"
  personnel :: int
  capacity_remaining :: int
  eta_minutes :: "int option"
  res_updated_at :: datetime

record ContradictionAlert =
  alert_id :: string
  entity_id :: string
  entity_type :: string
  entity_name :: string
  alert_claims :: "pydict list"
  alert_verdict :: Verdict
  severity :: string
  temporal_analysis :: "string option"
  recommended_action :: ActionType
  recommended_action_details :: string
  alert_urgency :: Urgency
  alert_created_at :: datetime
  resolved :: bool
  resolution :: "string option"
  resolved_by :: "string option"
  resolved_at :: "datetime option"

record ActionRecommendation =
  act_id :: string
  action_type :: string
  target_incident_id :: "string option"
  target_location :: "Location option"
  target_sector :: "string option"
  resources_to_allocate :: "string list"
  rationale :: string
  supporting_factors :: "string list"
  act_confidence :: real
  tradeoffs :: "pydict list"
  uncertainty_factors :: "string list"
  requires_human_approval :: bool
  decision_deadline :: datetime
  time_sensitivity :: Urgency
  act_status :: string
  act_created_at :: datetime
  decided_at :: "datetime option"
  decided_by :: "string option"

text \<open>
  The graph, with the dictionaries the operations below read or write (locations, edges,
  allocation plans, camps, voice reports and the scenario metadata are not touched by
  them).  The node types are parameters: the typed operations use the records above,
  the reflective ones (\<open>update_incident\<close>, \<open>update_resource\<close>) the attribute
  dictionaries of the objects.
\<close>

record ('i, 'r) SituationGraph =
  incidents :: "(string \<times> 'i) list"
  resources :: "(string \<times> 'r) list"
  contradictions :: "(string \<times> ContradictionAlert) list"
  pending_actions :: "(string \<times> ActionRecommendation) list"
  last_updated :: datetime

record AuditEvent =
  ev_timestamp :: datetime
  event_type :: string
  ev_data :: pydict

record ('i, 'r) SituationGraphManager =
  graph :: "('i, 'r) SituationGraph"
  audit_log :: "AuditEvent list"

type_synonym Graph = "(IncidentNode, ResourceNode) SituationGraph"
type_synonym Manager = "(IncidentNode, ResourceNode) SituationGraphManager"

section \<open>\<open>SituationGraphManager\<close> (graph/situation_graph.py)\<close>

text \<open>
  Every operation takes the manager and returns the new one, next to what the method
  returns.  \<open>now\<close> is the reading of \<open>datetime.utcnow()\<close> during the call (the source
  reads the clock once per stamp; the stamps of one call are taken as one instant).
\<close>

definition log_event ::
  "datetime \<Rightarrow> string \<Rightarrow> pydict \<Rightarrow> ('i, 'r) SituationGraphManager \<Rightarrow> ('i, 'r) SituationGraphManager"
where
  "log_event now ty data m =
     m\<lparr>audit_log := audit_log m @ [\<lparr>ev_timestamp = now, event_type = ty, ev_data = data\<rparr>]\<rparr>"

definition add_contradiction ::
  "datetime \<Rightarrow> ContradictionAlert \<Rightarrow> ('i, 'r) SituationGraphManager
     \<Rightarrow> ('i, 'r) SituationGraphManager"
where
  "add_contradiction now alert m =
     log_event now ''contradiction_added''
       [(''alert_id'', PStr (alert_id alert)), (''entity'', PStr (entity_name alert)),
        (''verdict'', PStr (Verdict_value (alert_verdict alert)))]
       (m\<lparr>graph := (graph m)\<lparr>
            contradictions := AList.update (alert_id alert) alert (contradictions (graph m)),
            last_updated := now\<rparr>\<rparr>)"

definition resolve_contradiction ::
  "datetime \<Rightarrow> string \<Rightarrow> string \<Rightarrow> string \<Rightarrow> ('i, 'r) SituationGraphManager
     \<Rightarrow> ContradictionAlert option \<times> ('i, 'r) SituationGraphManager"
where
  "resolve_contradiction now aid res by m =
     (case map_of (contradictions (graph m)) aid of
        None \<Rightarrow> (None, m)
      | Some alert0 \<Rightarrow>
          let alert = alert0\<lparr>resolved := True, resolution := Some res,
                             resolved_by := Some by, resolved_at := Some now\<rparr>
          in (Some alert,
              log_event now ''contradiction_resolved''
                [(''alert_id'', PStr aid), (''resolution'', PStr res), (''resolved_by'', PStr by)]
                (m\<lparr>graph := (graph m)\<lparr>
                     contradictions := AList.update aid alert (contradictions (graph m)),
                     last_updated := now\<rparr>\<rparr>)))"

definition add_incident :: "datetime \<Rightarrow> IncidentNode \<Rightarrow> Manager \<Rightarrow> Manager" where
  "add_incident now incident m =
     log_event now ''incident_added''
       [(''incident_id'', PStr (inc_id incident)), (''type'', PStr (incident_type incident))]
       (m\<lparr>graph := (graph m)\<lparr>
            incidents := AList.update (inc_id incident) incident (incidents (graph m)),
            last_updated := now\<rparr>\<rparr>)"

definition add_resource :: "datetime \<Rightarrow> ResourceNode \<Rightarrow> Manager \<Rightarrow> Manager" where
  "add_resource now resource m =
     m\<lparr>graph := (graph m)\<lparr>
          resources := AList.update (res_id resource) resource (resources (graph m)),
          last_updated := now\<rparr>\<rparr>"

definition add_action ::
  "datetime \<Rightarrow> ActionRecommendation \<Rightarrow> ('i, 'r) SituationGraphManager
     \<Rightarrow> ('i, 'r) SituationGraphManager"
where
  "add_action now action m =
     log_event now ''action_recommended''
       [(''action_id'', PStr (act_id action)), (''action_type'', PStr (action_type action)),
        (''resources'', PList (map PStr (resources_to_allocate action)))]
       (m\<lparr>graph := (graph m)\<lparr>
            pending_actions := AList.update (act_id action) action (pending_actions (graph m)),
            last_updated := now\<rparr>\<rparr>)"

text \<open>
  The body of the loop \<open>for resource_id in action.resources_to_allocate\<close> of
  \<open>approve_action\<close>; \<open>if action.target_location\<close> holds for every location object.
\<close>

definition dispatch_fields ::
  "datetime \<Rightarrow> ActionRecommendation \<Rightarrow> ResourceNode \<Rightarrow> ResourceNode"
where
  "dispatch_fields now action resource =
     (let r1 = resource\<lparr>res_status := ''dispatched'',
                       assigned_incident := target_incident_id action,
                       eta_minutes := Some 8,
                       res_updated_at := now\<rparr>
      in case target_location action of
           Some l \<Rightarrow> r1\<lparr>destination := Some l\<rparr>
         | None \<Rightarrow> r1)"

definition dispatch_resource ::
  "datetime \<Rightarrow> ActionRecommendation \<Rightarrow> (string \<times> ResourceNode) list \<Rightarrow> string
     \<Rightarrow> (string \<times> ResourceNode) list"
where
  "dispatch_resource now action rs resource_id =
     (case map_of rs resource_id of
        None \<Rightarrow> rs
      | Some resource \<Rightarrow> AList.update resource_id (dispatch_fields now action resource) rs)"

text \<open>\<open>if x and x in d\<close> on an optional string: \<open>None\<close> and the empty string are false.\<close>

definition truthy_key :: "string option \<Rightarrow> (string \<times> 'v) list \<Rightarrow> (string \<times> 'v) option" where
  "truthy_key x d =
     (case x of
        None \<Rightarrow> None
      | Some k \<Rightarrow> if k = [] then None else map_option (Pair k) (map_of d k))"

definition approve_action ::
  "datetime \<Rightarrow> string \<Rightarrow> string \<Rightarrow> Manager \<Rightarrow> ActionRecommendation option \<times> Manager"
where
  "approve_action now action_id by m =
     (case map_of (pending_actions (graph m)) action_id of
        None \<Rightarrow> (None, m)
      | Some action0 \<Rightarrow>
          let action = action0\<lparr>act_status := ''approved'', decided_at := Some now,
                               decided_by := Some by\<rparr>;
              g = graph m;
              rs = foldl (dispatch_resource now action) (resources g)
                     (resources_to_allocate action);
              incs = (case truthy_key (target_incident_id action) (incidents g) of
                        None \<Rightarrow> incidents g
                      | Some (tid, incident) \<Rightarrow>
                          AList.update tid
                            (incident\<lparr>inc_status := ''responding'',
                                      assigned_resources :=
                                        assigned_resources incident @ resources_to_allocate action,
                                      inc_updated_at := now\<rparr>)
                            (incidents g))
          in (Some action,
              log_event now ''action_approved''
                [(''action_id'', PStr action_id), (''decided_by'', PStr by),
                 (''resources'', PList (map PStr (resources_to_allocate action)))]
                (m\<lparr>graph := g\<lparr>
                     pending_actions := AList.update action_id action (pending_actions g),
                     resources := rs,
                     incidents := incs,
                     last_updated := now\<rparr>\<rparr>)))"

definition decay_incident :: "real \<Rightarrow> IncidentNode \<Rightarrow> IncidentNode" where
  "decay_incident elapsed_minutes incident =
     (if inc_status incident = ''active''
      then let decay = decay_rate incident * elapsed_minutes
           in incident\<lparr>inc_confidence := max (1 / 10) (inc_confidence incident - decay)\<rparr>
      else incident)"

definition decay_confidences :: "datetime \<Rightarrow> real \<Rightarrow> Manager \<Rightarrow> Manager" where
  "decay_confidences now elapsed_minutes m =
     m\<lparr>graph := (graph m)\<lparr>
          incidents := map (\<lambda>(k, incident). (k, decay_incident elapsed_minutes incident))
                         (incidents (graph m)),
          last_updated := now\<rparr>\<rparr>"

definition assign_resource_manual ::
  "datetime \<Rightarrow> string \<Rightarrow> string \<Rightarrow> Manager \<Rightarrow> ResourceNode option \<times> Manager"
where
  "assign_resource_manual now resource_id incident_id m =
     (case map_of (resources (graph m)) resource_id of
        None \<Rightarrow> (None, m)
      | Some resource0 \<Rightarrow>
         (case map_of (incidents (graph m)) incident_id of
            None \<Rightarrow> (None, m)
          | Some incident0 \<Rightarrow>
              let resource = resource0\<lparr>res_status := ''dispatched'',
                                       assigned_incident := Some incident_id,
                                       destination := Some (inc_location incident0),
                                       eta_minutes := Some 8,
                                       res_updated_at := now\<rparr>;
                  incident1 = (if resource_id \<notin> set (assigned_resources incident0)
                               then incident0\<lparr>assigned_resources :=
                                                assigned_resources incident0 @ [resource_id]\<rparr>
                               else incident0);
                  incident = incident1\<lparr>inc_updated_at := now\<rparr>;
                  g = graph m
              in (Some resource,
                  log_event now ''resource_assigned''
                    [(''resource_id'', PStr resource_id), (''incident_id'', PStr incident_id)]
                    (m\<lparr>graph := g\<lparr>
                         resources := AList.update resource_id resource (resources g),
                         incidents := AList.update incident_id incident (incidents g),
                         last_updated := now\<rparr>\<rparr>))))"

definition unassign_resource ::
  "datetime \<Rightarrow> string \<Rightarrow> Manager \<Rightarrow> ResourceNode option \<times> Manager"
where
  "unassign_resource now resource_id m =
     (case map_of (resources (graph m)) resource_id of
        None \<Rightarrow> (None, m)
      | Some resource0 \<Rightarrow>
          let old_incident_id = assigned_incident resource0;
              resource = resource0\<lparr>res_status := ''available'',
                                   assigned_incident := None,
                                   destination := None,
                                   eta_minutes := None,
                                   res_updated_at := now\<rparr>;
              g = graph m;
              incs = (case truthy_key old_incident_id (incidents g) of
                        None \<Rightarrow> incidents g
                      | Some (oid, incident) \<Rightarrow>
                          if resource_id \<in> set (assigned_resources incident)
                          then AList.update oid
                                 (incident\<lparr>assigned_resources :=
                                    remove1 resource_id (assigned_resources incident)\<rparr>)
                                 (incidents g)
                          else incidents g)
          in (Some resource,
              log_event now ''resource_unassigned'' [(''resource_id'', PStr resource_id)]
                (m\<lparr>graph := g\<lparr>
                     resources := AList.update resource_id resource (resources g),
                     incidents := incs,
                     last_updated := now\<rparr>\<rparr>)))"

section \<open>Reflective updates: \<open>update_incident\<close>, \<open>update_resource\<close>\<close>

text \<open>
  \<open>update_incident\<close> and \<open>update_resource\<close> reach the node through \<open>hasattr\<close> and
  \<open>setattr\<close> with values of any type, so here a node is its attribute dictionary: the
  fields of the class, by name, in declaration order.  A node is an object of a pydantic
  model, and the base class of the models is not part of the repository: it is a
  parameter.  It gives every object more attributes than its fields (its methods and
  properties, such as \<open>model_dump\<close>), and its \<open>__setattr__\<close> decides what an assignment
  to such a name does: it raises, or it returns the object changed.
\<close>

type_synonym pyobject = pydict

record ModelClass =
  class_attributes :: "string set"
  class_setattr :: "string \<Rightarrow> pyval \<Rightarrow> pyobject \<Rightarrow> py_error + pyobject"

text \<open>\<open>hasattr\<close> holds for a field of the object and for an attribute of its class.\<close>

definition hasattr :: "ModelClass \<Rightarrow> pyobject \<Rightarrow> string \<Rightarrow> bool" where
  "hasattr cls obj key = (map_of obj key \<noteq> None \<or> key \<in> class_attributes cls)"

text \<open>\<open>setattr\<close> stores the value of a field as it is, without validation.\<close>

definition setattr :: "ModelClass \<Rightarrow> pyobject \<Rightarrow> string \<Rightarrow> pyval \<Rightarrow> py_error + pyobject" where
  "setattr cls obj key v =
     (if map_of obj key \<noteq> None then Inr (AList.update key v obj)
      else class_setattr cls key v obj)"

text \<open>
  The loop \<open>for key, value in updates.items()\<close>: the object as the loop leaves it, and
  the exception when an assignment raises (the entries before it are applied, the node
  is changed in place).
\<close>

fun apply_updates :: "ModelClass \<Rightarrow> pyobject \<Rightarrow> pydict \<Rightarrow> py_error option \<times> pyobject" where
  "apply_updates cls obj [] = (None, obj)"
| "apply_updates cls obj ((key, v) # rest) =
     (if hasattr cls obj key
      then (case setattr cls obj key v of
              Inl e \<Rightarrow> (Some e, obj)
            | Inr obj' \<Rightarrow> apply_updates cls obj' rest)
      else apply_updates cls obj rest)"

text \<open>
  The result is what the method returns, or the exception that leaves it; the manager
  comes back in both cases.
\<close>

definition update_incident ::
  "ModelClass \<Rightarrow> datetime \<Rightarrow> string \<Rightarrow> pydict \<Rightarrow> (pyobject, 'r) SituationGraphManager
     \<Rightarrow> (py_error + pyobject option) \<times> (pyobject, 'r) SituationGraphManager"
where
  "update_incident cls now incident_id updates m =
     (case map_of (incidents (graph m)) incident_id of
        None \<Rightarrow> (Inr None, m)
      | Some incident0 \<Rightarrow>
          (case apply_updates cls incident0 updates of
             (Some e, incident1) \<Rightarrow>
               (Inl e,
                m\<lparr>graph := (graph m)\<lparr>
                     incidents := AList.update incident_id incident1 (incidents (graph m))\<rparr>\<rparr>)
           | (None, incident1) \<Rightarrow>
               (case setattr cls incident1 ''updated_at'' (PDatetime now) of
                  Inl e \<Rightarrow>
                    (Inl e,
                     m\<lparr>graph := (graph m)\<lparr>
                          incidents := AList.update incident_id incident1 (incidents (graph m))\<rparr>\<rparr>)
                | Inr incident \<Rightarrow>
                    (Inr (Some incident),
                     log_event now ''incident_updated''
                       [(''incident_id'', PStr incident_id),
                        (''updates'', PList (map (\<lambda>(key, v). PStr key) updates))]
                       (m\<lparr>graph := (graph m)\<lparr>
                            incidents := AList.update incident_id incident (incidents (graph m)),
                            last_updated := now\<rparr>\<rparr>)))))"

definition update_resource ::
  "ModelClass \<Rightarrow> datetime \<Rightarrow> string \<Rightarrow> pydict \<Rightarrow> ('i, pyobject) SituationGraphManager
     \<Rightarrow> (py_error + pyobject option) \<times> ('i, pyobject) SituationGraphManager"
where
  "update_resource cls now resource_id updates m =
     (case map_of (resources (graph m)) resource_id of
        None \<Rightarrow> (Inr None, m)
      | Some resource0 \<Rightarrow>
          (case apply_updates cls resource0 updates of
             (Some e, resource1) \<Rightarrow>
               (Inl e,
                m\<lparr>graph := (graph m)\<lparr>
                     resources := AList.update resource_id resource1 (resources (graph m))\<rparr>\<rparr>)
           | (None, resource1) \<Rightarrow>
               (case setattr cls resource1 ''updated_at'' (PDatetime now) of
                  Inl e \<Rightarrow>
                    (Inl e,
                     m\<lparr>graph := (graph m)\<lparr>
                          resources := AList.update resource_id resource1 (resources (graph m))\<rparr>\<rparr>)
                | Inr resource \<Rightarrow>
                    (Inr (Some resource),
                     m\<lparr>graph := (graph m)\<lparr>
                          resources := AList.update resource_id resource (resources (graph m)),
                          last_updated := now\<rparr>\<rparr>))))"

text \<open>The attribute dictionaries of the objects of the classes of \<open>schemas.py\<close>.\<close>

fun DamageLevel_value :: "DamageLevel \<Rightarrow> string" where
  "DamageLevel_value NONE = ''none''"
| "DamageLevel_value MINOR = ''minor''"
| "DamageLevel_value MODERATE = ''moderate''"
| "DamageLevel_value SEVERE = ''severe''"
| "DamageLevel_value CATASTROPHIC = ''catastrophic''"

fun Urgency_value :: "Urgency \<Rightarrow> string" where
  "Urgency_value CRITICAL = ''critical''"
| "Urgency_value HIGH = ''high''"
| "Urgency_value MEDIUM = ''medium''"
| "Urgency_value LOW = ''low''"

fun SourceType_value :: "SourceType \<Rightarrow> string" where
  "SourceType_value IMAGE = ''image''"
| "SourceType_value AUDIO = ''audio''"
| "SourceType_value TEXT = ''text''"
| "SourceType_value DOCUMENT = ''document''"
| "SourceType_value SATELLITE = ''satellite''"

definition optional :: "('a \<Rightarrow> pyval) \<Rightarrow> 'a option \<Rightarrow> pyval" where
  "optional f x = (case x of None \<Rightarrow> PNone | Some y \<Rightarrow> f y)"

definition Location_object :: "Location \<Rightarrow> pyval" where
  "Location_object l =
     PDict [(''lat'', PFloat (lat l)), (''lng'', PFloat (lng l)),
            (''address'', optional PStr (address l)), (''sector'', optional PStr (sector l)),
            (''name'', optional PStr (loc_name l))]"

definition SourceReference_object :: "SourceReference \<Rightarrow> pyval" where
  "SourceReference_object s =
     PDict [(''source_id'', PStr (source_id s)),
            (''source_type'', PStr (SourceType_value (source_type s))),
            (''timestamp'', PDatetime (src_timestamp s)),
            (''raw_content_ref'', PStr (raw_content_ref s)),
            (''credibility_score'', PFloat (credibility_score s))]"

definition IncidentNode_object :: "IncidentNode \<Rightarrow> pyobject" where
  "IncidentNode_object i =
     [(''id'', PStr (inc_id i)),
      (''type'', PStr (inc_type i)),
      (''incident_type'', PStr (incident_type i)),
      (''location'', Location_object (inc_location i)),
      (''damage_level'', PStr (DamageLevel_value (damage_level i))),
      (''urgency'', PStr (Urgency_value (inc_urgency i))),
      (''trapped_min'', optional PInt (trapped_min i)),
      (''trapped_max'', optional PInt (trapped_max i)),
      (''injured_min'', optional PInt (injured_min i)),
      (''injured_max'', optional PInt (injured_max i)),
      (''confidence'', PFloat (inc_confidence i)),
      (''sources'', PList (map SourceReference_object (inc_sources i))),
      (''created_at'', PDatetime (inc_created_at i)),
      (''updated_at'', PDatetime (inc_updated_at i)),
      (''contradictions'', PList (map PStr (inc_contradictions i))),
      (''decay_rate'', PFloat (decay_rate i)),
      (''status'', PStr (inc_status i)),
      (''assigned_resources'', PList (map PStr (assigned_resources i)))]"

definition ResourceNode_object :: "ResourceNode \<Rightarrow> pyobject" where
  "ResourceNode_object r =
     [(''id'', PStr (res_id r)),
      (''type'', PStr (res_type r)),
      (''resource_type'', PStr (resource_type r)),
      (''unit_id'', PStr (unit_id r)),
      (''current_location'', Location_object (current_location r)),
      (''destination'', optional Location_object (destination r)),
      (''status'', PStr (res_status r)),
      (''assigned_incident'', optional PStr (assigned_incident r)),
      (''personnel'', PInt (personnel r)),
      (''capacity_remaining'', PInt (capacity_remaining r)),
      (''eta_minutes'', optional PInt (eta_minutes r)),
      (''updated_at'', PDatetime (res_updated_at r))]"

section \<open>\<open>_parse_urgency\<close> (orchestrator/coordinator.py)\<close>

text \<open>
  The loop \<open>for level in ("critical", "high", "medium", "low")\<close> with its early return:
  \<open>None\<close> when the loop ends without returning.
\<close>

fun parse_urgency_loop :: "string list \<Rightarrow> string \<Rightarrow> (py_error + Urgency) option" where
  "parse_urgency_loop [] raw = None"
| "parse_urgency_loop (level # levels) raw =
     (if str_in level raw then Some (Urgency_of_value level)
      else parse_urgency_loop levels raw)"

definition parse_urgency :: "string \<Rightarrow> py_error + Urgency" where
  "parse_urgency raw0 =
     (let raw = str_lower raw0 in
      case parse_urgency_loop [''critical'', ''high'', ''medium'', ''low''] raw of
        Some r \<Rightarrow> r
      | None \<Rightarrow> Inr HIGH)"

text \<open>
  Occurrence of a lower-case word in a text without regard to case, said without the
  lower-casing of the code: some stretch of the text reads as the word, where an
  upper-case letter of the text stands for its lower-case letter.
\<close>

definition same_letter :: "char \<Rightarrow> char \<Rightarrow> bool" where
  "same_letter c d \<longleftrightarrow>
     c = d \<or> (c, d) \<in> set (zip ''ABCDEFGHIJKLMNOPQRSTUVWXYZ'' ''abcdefghijklmnopqrstuvwxyz'')"

definition occurs_ignoring_case :: "string \<Rightarrow> string \<Rightarrow> bool" where
  "occurs_ignoring_case word s \<longleftrightarrow>
     (\<exists>ps t ss. s = ps @ t @ ss \<and> list_all2 same_letter t word)"

section \<open>The coordinator (orchestrator/coordinator.py)\<close>

text \<open>
  The state of the coordinator that the detector, the injection and the planning trigger
  read or write.  \<open>signal_claims\<close> maps an entity name to a list object that is appended
  to in place and that a suspended detector still holds after the entry is deleted, so
  the lists live in a store: \<open>signal_claims\<close> holds the address, \<open>claim_lists\<close> the
  contents, \<open>fresh_list\<close> the next unused address.  The timeline ring and the broadcasts
  carry no state that these operations read and are left out.
\<close>

record Coordinator =
  graph_manager :: Manager
  signal_claims :: "(string \<times> nat) list"
  claim_lists :: "nat \<Rightarrow> pydict list"
  fresh_list :: nat
  handled_contradictions :: "string set"
  simulation_running :: bool
  simulation_paused :: bool
  last_planning_call :: "datetime option"
  planning_cooldown_seconds :: int

definition Manager_init :: "datetime \<Rightarrow> Manager" where
  "Manager_init now =
     \<lparr>graph = \<lparr>incidents = [], resources = [], contradictions = [], pending_actions = [],
                last_updated = now\<rparr>,
      audit_log = []\<rparr>"

definition Coordinator_init :: "datetime \<Rightarrow> Coordinator" where
  "Coordinator_init now =
     \<lparr>graph_manager = Manager_init now, signal_claims = [], claim_lists = (\<lambda>_. []),
      fresh_list = 0, handled_contradictions = {}, simulation_running = False,
      simulation_paused = False, last_planning_call = None, planning_cooldown_seconds = 20\<rparr>"

text \<open>\<open>t.strftime("%H:%M")\<close>.\<close>

definition two_digits :: "nat \<Rightarrow> string" where
  "two_digits n = [char_of (48 + n div 10), char_of (48 + n mod 10)]"

definition strftime_HM :: "datetime \<Rightarrow> string" where
  "strftime_HM t =
     (let s = t div 1000000
      in two_digits (nat ((s div 3600) mod 24)) @ '':'' @ two_digits (nat ((s div 60) mod 60)))"

text \<open>
  The output of the Verification analyzer, by the keys of its JSON schema
  (agents/verification\_agent.py); \<open>None\<close> is an absent key.  The outcome of a call is
  this record, or the exception the call raises.
\<close>

record VerificationData =
  vd_entity_type :: "string option"
  vd_claims_analyzed :: "pydict list option"
  vd_contradictions :: "pydict list option"
  vd_verdict :: "string option"
  vd_temporal_analysis :: "string option"
  vd_recommended_action :: "string option"
  vd_recommended_action_details :: "string option"
  vd_urgency :: "string option"

text \<open>\<open>verdict_map.get(s, dflt)\<close> and \<open>action_map.get(s, dflt)\<close>.\<close>

definition verdict_map_get :: "string \<Rightarrow> Verdict \<Rightarrow> Verdict" where
  "verdict_map_get s dflt =
     (if s = ''CONTRADICTION'' then CONTRADICTION
      else if s = ''TEMPORAL_GAP'' then TEMPORAL_GAP
      else if s = ''CONSISTENT'' then CONSISTENT
      else if s = ''UNCERTAIN'' then UNCERTAIN
      else dflt)"

definition action_map_get :: "string \<Rightarrow> ActionType \<Rightarrow> ActionType" where
  "action_map_get s dflt =
     (if s = ''REQUEST_VERIFICATION'' then REQUEST_VERIFICATION
      else if s = ''FLAG_FOR_HUMAN'' then FLAG_FOR_HUMAN
      else if s = ''ACCEPT'' then ACCEPT
      else if s = ''WAIT'' then WAIT
      else dflt)"

text \<open>\<open>d.get(key, dflt)\<close> on an optional key, and \<open>x or y\<close> on optional strings and lists.\<close>

definition get_default :: "'a option \<Rightarrow> 'a \<Rightarrow> 'a" where
  "get_default x dflt = (case x of None \<Rightarrow> dflt | Some v \<Rightarrow> v)"

definition or_else :: "'a list option \<Rightarrow> 'a list \<Rightarrow> 'a list" where
  "or_else x y = (case x of None \<Rightarrow> y | Some v \<Rightarrow> if v = [] then y else v)"

text \<open>\<open>entity_name.lower().replace(" ", "_")\<close>.\<close>

definition entity_id_of :: "string \<Rightarrow> string" where
  "entity_id_of ename = str_replace_char (CHR '' '') (CHR ''_'') (str_lower ename)"

text \<open>\<open>del d[k]\<close> under \<open>if k in d\<close>.\<close>

definition delete_claims :: "string \<Rightarrow> Coordinator \<Rightarrow> Coordinator" where
  "delete_claims ename c = c\<lparr>signal_claims := AList.delete ename (signal_claims c)\<rparr>"

subsection \<open>Claim accumulation (the text branch of \<open>_update_graph_from_output\<close>)\<close>

text \<open>
  The output of the Text analyzer, by the keys of its JSON schema (agents/text\_agent.py):
  the claims are dictionaries (the analyzer reads each of them as one before it returns
  its output).  \<open>None\<close> is an absent key; for the name of the location it is also a
  location that is no dictionary, or one without a name.
\<close>

record TextClaim =
  tc_location_name :: "string option"
  tc_claim :: "string option"
  tc_confidence :: "real option"

record TextData =
  td_claims :: "TextClaim list option"
  td_source_type :: "string option"

text \<open>\<open>d.get(key, default)\<close> on a dictionary with values of any type.\<close>

definition dict_get :: "pydict \<Rightarrow> string \<Rightarrow> pyval \<Rightarrow> pyval" where
  "dict_get d key dflt = (case map_of d key of None \<Rightarrow> dflt | Some v \<Rightarrow> v)"

text \<open>
  \<open>if entity_name not in self.signal_claims: self.signal_claims[entity_name] = []\<close> and
  \<open>self.signal_claims[entity_name].append(claim)\<close>.
\<close>

definition ensure_claim_list :: "string \<Rightarrow> Coordinator \<Rightarrow> Coordinator" where
  "ensure_claim_list ename c =
     (if map_of (signal_claims c) ename = None
      then c\<lparr>signal_claims := AList.update ename (fresh_list c) (signal_claims c),
             claim_lists := (claim_lists c)(fresh_list c := []),
             fresh_list := Suc (fresh_list c)\<rparr>
      else c)"

definition append_claim :: "string \<Rightarrow> pydict \<Rightarrow> Coordinator \<Rightarrow> Coordinator" where
  "append_claim ename claim c =
     (case map_of (signal_claims c) ename of
        None \<Rightarrow> c
      | Some a \<Rightarrow> c\<lparr>claim_lists := (claim_lists c)(a := claim_lists c a @ [claim])\<rparr>)"

text \<open>\<open>self.signal_claims[entity_name]\<close>, read.\<close>

definition claims_of :: "string \<Rightarrow> Coordinator \<Rightarrow> pydict list" where
  "claims_of ename c =
     (case map_of (signal_claims c) ename of None \<Rightarrow> [] | Some a \<Rightarrow> claim_lists c a)"

text \<open>
  The loop \<open>for claim_data in claims\<close>: a claim without a name is skipped, so is a
  claim about a handled entity.
\<close>

fun accumulate_claims ::
  "datetime \<Rightarrow> string \<Rightarrow> TextData \<Rightarrow> TextClaim list \<Rightarrow> Coordinator \<Rightarrow> Coordinator"
where
  "accumulate_claims now signal_id data [] c = c"
| "accumulate_claims now signal_id data (claim_data # claims) c =
     (let ename = get_default (tc_location_name claim_data) []
      in if ename = [] then accumulate_claims now signal_id data claims c
         else if ename \<in> handled_contradictions c
         then accumulate_claims now signal_id data claims c
         else accumulate_claims now signal_id data claims
                (append_claim ename
                   [(''source'', PStr (''text_'' @ signal_id)),
                    (''source_type'', PStr (get_default (td_source_type data) ''unverified'')),
                    (''claim'', PStr (get_default (tc_claim claim_data) [])),
                    (''confidence'', PFloat (get_default (tc_confidence claim_data) (4 / 10))),
                    (''timestamp'', PStr (strftime_HM now))]
                   (ensure_claim_list ename c)))"

text \<open>The branch itself: \<open>claims = data.get("claims") or []\<close>, outside simulation mode.\<close>

definition update_graph_from_text_output ::
  "datetime \<Rightarrow> string \<Rightarrow> TextData \<Rightarrow> Coordinator \<Rightarrow> Coordinator" where
  "update_graph_from_text_output now signal_id data c =
     (if \<not> simulation_running c
      then accumulate_claims now signal_id data (or_else (td_claims data) []) c
      else c)"

subsection \<open>\<open>_check_contradictions\<close>\<close>

text \<open>
  The alert the detector builds from the analyzer's output; the constructor of the
  record validates \<open>severity\<close> against its three literals.
\<close>

definition first_severity :: "pydict list option \<Rightarrow> pyval" where
  "first_severity cs = dict_get (hd (or_else cs [ [] ])) ''severity'' (PStr ''high'')"

definition detector_alert ::
  "string \<Rightarrow> datetime \<Rightarrow> string \<Rightarrow> pydict list \<Rightarrow> VerificationData
     \<Rightarrow> py_error + ContradictionAlert"
where
  "detector_alert uid now ename claims ver_data =
     (case first_severity (vd_contradictions ver_data) of
        PStr sev \<Rightarrow>
          if sev \<in> {''low'', ''medium'', ''high''}
          then (case parse_urgency (get_default (vd_urgency ver_data) ''high'') of
                  Inl e \<Rightarrow> Inl e
                | Inr urg \<Rightarrow>
                    Inr \<lparr>alert_id = ''alert_'' @ uid,
                         entity_id = entity_id_of ename,
                         entity_type = get_default (vd_entity_type ver_data) ''infrastructure'',
                         entity_name = ename,
                         alert_claims = or_else (vd_claims_analyzed ver_data) (take 2 claims),
                         alert_verdict =
                           verdict_map_get (get_default (vd_verdict ver_data) ''UNCERTAIN'') UNCERTAIN,
                         severity = sev,
                         temporal_analysis = vd_temporal_analysis ver_data,
                         recommended_action =
                           action_map_get
                             (get_default (vd_recommended_action ver_data) ''FLAG_FOR_HUMAN'')
                             FLAG_FOR_HUMAN,
                         recommended_action_details =
                           get_default (vd_recommended_action_details ver_data) [],
                         alert_urgency = urg,
                         alert_created_at = now,
                         resolved = False, resolution = None, resolved_by = None,
                         resolved_at = None\<rparr>)
          else Inl ValidationError
      | _ \<Rightarrow> Inl ValidationError)"

text \<open>
  \<open>_check_contradictions\<close> is a coroutine: it runs until it awaits the Verification
  analyzer, and after the alert is stored it awaits the broadcast before it marks the
  entity as handled.  Other coroutines run while it is suspended.  A task is where a
  call stands: scanning is never observed from outside, so a task is suspended in the
  analyzer (with the entity, the address of the claim list it read and the rest of the
  snapshot), suspended in the broadcast (with the entity), or finished.
\<close>

datatype check_task =
    Await_verification string nat "(string \<times> nat) list"
  | Await_broadcast string
  | Finished

text \<open>The \<open>for\<close> loop over the snapshot, up to the first call of the analyzer.\<close>

fun check_scan :: "(string \<times> nat) list \<Rightarrow> Coordinator \<Rightarrow> check_task" where
  "check_scan [] c = Finished"
| "check_scan ((ename, claims) # rest) c =
     (if map_of (signal_claims c) ename = None then check_scan rest c
      else if ename \<in> handled_contradictions c then check_scan rest c
      else if 2 \<le> length (claim_lists c claims) then Await_verification ename claims rest
      else check_scan rest c)"

text \<open>The call itself: the snapshot \<open>list(self.signal_claims.items())\<close>, then the loop.\<close>

definition check_contradictions_start :: "Coordinator \<Rightarrow> check_task" where
  "check_contradictions_start c = check_scan (signal_claims c) c"

text \<open>
  The task resumes with the outcome of the analyzer: \<open>uid\<close> is the random part of the
  alert id, \<open>now\<close> the clock.  An exception clears the claims of the entity and the loop
  goes on; so it does, without clearing, on any other verdict.
\<close>

definition after_verification ::
  "string \<Rightarrow> datetime \<Rightarrow> py_error + VerificationData \<Rightarrow> string \<Rightarrow> nat
     \<Rightarrow> (string \<times> nat) list \<Rightarrow> Coordinator \<Rightarrow> check_task \<times> Coordinator"
where
  "after_verification uid now outcome ename claims rest c =
     (case outcome of
        Inl e \<Rightarrow> (let c' = delete_claims ename c in (check_scan rest c', c'))
      | Inr ver_data \<Rightarrow>
          if vd_verdict ver_data \<in> {Some ''CONTRADICTION'', Some ''TEMPORAL_GAP''}
          then (case detector_alert uid now ename (claim_lists c claims) ver_data of
                  Inl e \<Rightarrow> (let c' = delete_claims ename c in (check_scan rest c', c'))
                | Inr alert \<Rightarrow>
                    (Await_broadcast ename,
                     c\<lparr>graph_manager := add_contradiction now alert (graph_manager c)\<rparr>))
          else (check_scan rest c, c))"

text \<open>The task resumes after the broadcast: the entity is handled, its claims go, \<open>break\<close>.\<close>

definition after_broadcast :: "string \<Rightarrow> Coordinator \<Rightarrow> check_task \<times> Coordinator" where
  "after_broadcast ename c =
     (Finished,
      delete_claims ename (c\<lparr>handled_contradictions := insert ename (handled_contradictions c)\<rparr>))"

text \<open>
  Coroutines in flight: the event loop resumes one suspended task at a time.  A schedule
  is a list of steps; a step starts a new call of \<open>_check_contradictions\<close> (as
  \<open>process_signal\<close> does after an image or audio signal outside simulation mode), hands
  the outcome of the analyzer to the task of the given index, or lets the broadcast of
  that task return.  A step that does not fit the state of the task changes nothing.
\<close>

datatype sched_step =
    Start_check
  | Verification_returns nat string datetime "py_error + VerificationData"
  | Broadcast_returns nat

fun sched_step_apply ::
  "sched_step \<Rightarrow> check_task list \<times> Coordinator \<Rightarrow> check_task list \<times> Coordinator"
where
  "sched_step_apply Start_check (tasks, c) =
     (if simulation_running c then (tasks, c) else (tasks @ [check_contradictions_start c], c))"
| "sched_step_apply (Verification_returns i uid now outcome) (tasks, c) =
     (if i < length tasks
      then (case tasks ! i of
              Await_verification ename claims rest \<Rightarrow>
                (case after_verification uid now outcome ename claims rest c of
                   (t, c') \<Rightarrow> (tasks[i := t], c'))
            | _ \<Rightarrow> (tasks, c))
      else (tasks, c))"
| "sched_step_apply (Broadcast_returns i) (tasks, c) =
     (if i < length tasks
      then (case tasks ! i of
              Await_broadcast ename \<Rightarrow>
                (case after_broadcast ename c of (t, c') \<Rightarrow> (tasks[i := t], c'))
            | _ \<Rightarrow> (tasks, c))
      else (tasks, c))"

fun sched_run ::
  "sched_step list \<Rightarrow> check_task list \<times> Coordinator \<Rightarrow> check_task list \<times> Coordinator"
where
  "sched_run [] s = s"
| "sched_run (step # steps) s = sched_run steps (sched_step_apply step s)"

text \<open>
  One call at a time: a call of \<open>_check_contradictions\<close> that is resumed until it
  finishes before anything else runs, fed with the outcomes of its analyzer calls in
  order (when they run out the call stays suspended and has written nothing more).
\<close>

fun check_drive ::
  "(string \<times> datetime \<times> (py_error + VerificationData)) list \<Rightarrow> check_task \<Rightarrow> Coordinator
     \<Rightarrow> Coordinator"
where
  "check_drive outcomes Finished c = c"
| "check_drive outcomes (Await_broadcast ename) c = snd (after_broadcast ename c)"
| "check_drive [] (Await_verification ename claims rest) c = c"
| "check_drive ((uid, now, outcome) # outcomes) (Await_verification ename claims rest) c =
     (case after_verification uid now outcome ename claims rest c of
        (t, c') \<Rightarrow> check_drive outcomes t c')"

text \<open>
  The signal path without overlap: a text signal (claims are accumulated), an image or
  audio signal (the detector runs, outside simulation mode), and the operator resolving
  an alert.
\<close>

datatype seq_step =
    Text_signal datetime string TextData
  | Check_signal "(string \<times> datetime \<times> (py_error + VerificationData)) list"
  | Resolve datetime string string string

fun seq_apply :: "seq_step \<Rightarrow> Coordinator \<Rightarrow> Coordinator" where
  "seq_apply (Text_signal now signal_id data) c = update_graph_from_text_output now signal_id data c"
| "seq_apply (Check_signal outcomes) c =
     (if simulation_running c then c else check_drive outcomes (check_contradictions_start c) c)"
| "seq_apply (Resolve now aid res who) c =
     c\<lparr>graph_manager := snd (resolve_contradiction now aid res who (graph_manager c))\<rparr>"

fun seq_run :: "seq_step list \<Rightarrow> Coordinator \<Rightarrow> Coordinator" where
  "seq_run [] c = c"
| "seq_run (step # steps) c = seq_run steps (seq_apply step c)"

text \<open>The alerts of the graph, and those about one entity name.\<close>

definition alerts :: "Coordinator \<Rightarrow> ContradictionAlert list" where
  "alerts c = map snd (contradictions (graph (graph_manager c)))"

definition alerts_about :: "string \<Rightarrow> Coordinator \<Rightarrow> ContradictionAlert list" where
  "alerts_about name c = filter (\<lambda>a. entity_name a = name) (alerts c)"

text \<open>
  The invariant of the detector between calls: the entity of every alert is handled,
  and no entity has two alerts.  While a call awaits its broadcast the entity of that
  call is not yet handled.
\<close>

definition detector_invariant :: "string set \<Rightarrow> Coordinator \<Rightarrow> bool" where
  "detector_invariant pending c \<longleftrightarrow>
     (\<forall>a \<in> set (alerts c). entity_name a \<in> pending \<union> handled_contradictions c) \<and>
     (\<forall>name. length (alerts_about name c) \<le> 1)"

fun task_ready :: "check_task \<Rightarrow> Coordinator \<Rightarrow> bool" where
  "task_ready Finished c = detector_invariant {} c"
| "task_ready (Await_verification ename claims rest) c =
     (detector_invariant {} c \<and> ename \<notin> handled_contradictions c)"
| "task_ready (Await_broadcast ename) c = detector_invariant {ename} c"

text \<open>The unresolved alerts of the graph for an entity name.\<close>

definition unresolved_alerts :: "string \<Rightarrow> Coordinator \<Rightarrow> ContradictionAlert list" where
  "unresolved_alerts name c =
     filter (\<lambda>a. entity_name a = name \<and> \<not> resolved a)
       (map snd (contradictions (graph (graph_manager c))))"

subsection \<open>\<open>_inject_contradiction\<close> (orchestrator/simulation.py)\<close>

text \<open>
  The payload of a scripted \<open>contradiction_inject\<close> event, by its keys; \<open>None\<close> is an
  absent key.
\<close>

record InjectEvent =
  ie_entity :: "string option"
  ie_claims :: "pydict list option"
  ie_entity_type :: "string option"
  ie_force_verdict :: "string option"
  ie_temporal_analysis :: "string option"

text \<open>\<open>x or y\<close> on strings.\<close>

definition str_or :: "string option \<Rightarrow> string \<Rightarrow> string" where
  "str_or x y = (case x of None \<Rightarrow> y | Some v \<Rightarrow> if v = [] then y else v)"

text \<open>
  The call, with the outcome of the analyzer (should the call be made), the random part
  of the alert id and the clock of the graph manager.  The coroutine is taken in one
  piece: nothing else runs while it awaits the analyzer.
\<close>

definition inject_contradiction ::
  "string \<Rightarrow> datetime \<Rightarrow> py_error + VerificationData \<Rightarrow> InjectEvent \<Rightarrow> datetime \<Rightarrow> Coordinator
     \<Rightarrow> Coordinator"
where
  "inject_contradiction uid now outcome data sim_time c =
     (let ename = get_default (ie_entity data) ''Unknown'';
          claims = get_default (ie_claims data) [];
          c1 = foldl (\<lambda>c' claim. append_claim ename
                        (AList.update ''timestamp'' (PStr (strftime_HM sim_time)) claim) c')
                 (ensure_claim_list ename c) claims
      in if 2 \<le> length (claims_of ename c1)
         then (case outcome of
                 Inl e \<Rightarrow> delete_claims ename c1
               | Inr ver_data \<Rightarrow>
                   let verdict_str = get_default (vd_verdict ver_data)
                                       (get_default (ie_force_verdict data) ''CONTRADICTION'');
                       alert =
                         \<lparr>alert_id = ''alert_'' @ uid,
                          entity_id = entity_id_of ename,
                          entity_type = get_default (ie_entity_type data) ''infrastructure'',
                          entity_name = ename,
                          alert_claims = claims_of ename c1,
                          alert_verdict = verdict_map_get verdict_str CONTRADICTION,
                          severity = ''high'',
                          temporal_analysis =
                            Some (str_or (vd_temporal_analysis ver_data)
                                    (get_default (ie_temporal_analysis data) [])),
                          recommended_action =
                            action_map_get
                              (get_default (vd_recommended_action ver_data) ''REQUEST_VERIFICATION'')
                              REQUEST_VERIFICATION,
                          recommended_action_details =
                            get_default (vd_recommended_action_details ver_data)
                              ''Deploy aerial verification'',
                          alert_urgency = HIGH,
                          alert_created_at = sim_time,
                          resolved = False, resolution = None, resolved_by = None,
                          resolved_at = None\<rparr>
                   in delete_claims ename
                        (c1\<lparr>graph_manager := add_contradiction now alert (graph_manager c1),
                            handled_contradictions := insert ename (handled_contradictions c1)\<rparr>))
         else c1)"

subsection \<open>\<open>_maybe_generate_recommendations\<close>\<close>

definition get_available_resources :: "string option \<Rightarrow> Manager \<Rightarrow> ResourceNode list" where
  "get_available_resources rtype m =
     (let rs = filter (\<lambda>r. res_status r = ''available'') (map snd (resources (graph m)))
      in case rtype of
           None \<Rightarrow> rs
         | Some t \<Rightarrow> if t = [] then rs else filter (\<lambda>r. resource_type r = t) rs)"

text \<open>\<open>(now - last).total_seconds()\<close>, on a difference in microseconds.\<close>

definition total_seconds :: "int \<Rightarrow> real" where
  "total_seconds d = real_of_int d / 1000000"

text \<open>
  What the Planning analyzer is called with: the active incidents and at most six of
  the available resources (the hospital summary is built from the locations, which are
  not modelled, and the road and weather hints are constants).
\<close>

record PlanningCall =
  pc_incidents :: "IncidentNode list"
  pc_resources :: "ResourceNode list"

text \<open>
  The coroutine up to the call of the Planning analyzer: \<open>now\<close> is the clock read on
  entry, \<open>stamp\<close> the clock read for \<open>_last_planning_call\<close>.  The result is the coordinator
  as the analyzer call finds it, and the call when it is made.  The code after the call
  adds one action to the graph and does not write the planning clock.
\<close>

definition maybe_generate_recommendations_start ::
  "datetime \<Rightarrow> datetime \<Rightarrow> Coordinator \<Rightarrow> Coordinator \<times> PlanningCall option"
where
  "maybe_generate_recommendations_start now stamp c =
     (if (case last_planning_call c of
            None \<Rightarrow> False
          | Some prev \<Rightarrow> total_seconds (now - prev) < real_of_int (planning_cooldown_seconds c))
      then (c, None)
      else
        let g = graph (graph_manager c);
            critical_incidents =
              filter (\<lambda>i. inc_urgency i \<in> {CRITICAL, HIGH} \<and> inc_status i = ''active'' \<and>
                           length (assigned_resources i) = 0)
                (map snd (incidents g))
        in if critical_incidents = [] then (c, None)
           else
             let pending_count =
                   length (filter (\<lambda>a. act_status a = ''pending'') (map snd (pending_actions g)))
             in if 3 \<le> pending_count then (c, None)
                else
                  let available_resources = get_available_resources None (graph_manager c)
                  in if available_resources = [] then (c, None)
                     else (c\<lparr>last_planning_call := Some stamp\<rparr>,
                           Some \<lparr>pc_incidents =
                                   filter (\<lambda>i. inc_status i = ''active'') (map snd (incidents g)),
                                 pc_resources = take 6 available_resources\<rparr>))"

text \<open>
  A run of the trigger: each entry is one call, with its two clock readings and the
  graph manager as the call finds it (whatever ran since the last call may have changed
  the graph; nothing but the trigger writes the planning clock or the cooldown).  The
  result lists the stamps of the calls that reached the analyzer.
\<close>

fun run_triggers :: "(datetime \<times> datetime \<times> Manager) list \<Rightarrow> Coordinator \<Rightarrow> datetime list" where
  "run_triggers [] c = []"
| "run_triggers ((now, stamp, gm) # rest) c =
     (case maybe_generate_recommendations_start now stamp (c\<lparr>graph_manager := gm\<rparr>) of
        (c', None) \<Rightarrow> run_triggers rest c'
      | (c', Some call) \<Rightarrow> stamp # run_triggers rest c')"

text \<open>The clock does not run backwards: the readings of a run, in order, from \<open>t\<close> on.\<close>

fun clock_monotone :: "datetime \<Rightarrow> (datetime \<times> datetime \<times> Manager) list \<Rightarrow> bool" where
  "clock_monotone t [] = True"
| "clock_monotone t ((now, stamp, gm) # rest) = (t \<le> now \<and> now \<le> stamp \<and> clock_monotone stamp rest)"

section \<open>Sequences of graph mutations and the resource invariant\<close>

text \<open>
  The invariant the data model states for a resource: a dispatched resource has an
  incident and a destination, an available one has no incident.
\<close>

definition resource_invariant :: "ResourceNode \<Rightarrow> bool" where
  "resource_invariant r \<longleftrightarrow>
     (res_status r = ''dispatched'' \<longrightarrow> assigned_incident r \<noteq> None \<and> destination r \<noteq> None) \<and>
     (res_status r = ''available'' \<longrightarrow> assigned_incident r = None)"

definition resources_ok :: "Manager \<Rightarrow> bool" where
  "resources_ok m \<longleftrightarrow> (\<forall>rid r. map_of (resources (graph m)) rid = Some r \<longrightarrow> resource_invariant r)"

datatype mutation =
    Approve_action string string
  | Assign_resource_manual string string
  | Unassign_resource string

fun apply_mutation :: "datetime \<Rightarrow> mutation \<Rightarrow> Manager \<Rightarrow> Manager" where
  "apply_mutation now (Approve_action action_id by) m = snd (approve_action now action_id by m)"
| "apply_mutation now (Assign_resource_manual resource_id incident_id) m =
     snd (assign_resource_manual now resource_id incident_id m)"
| "apply_mutation now (Unassign_resource resource_id) m = snd (unassign_resource now resource_id m)"

fun run_mutations :: "(datetime \<times> mutation) list \<Rightarrow> Manager \<Rightarrow> Manager" where
  "run_mutations [] m = m"
| "run_mutations ((now, op) # ops) m = run_mutations ops (apply_mutation now op m)"

definition action_targets :: "Manager \<Rightarrow> string \<Rightarrow> (string option \<times> Location option) option" where
  "action_targets m aid =
     map_option (\<lambda>a. (target_incident_id a, target_location a))
       (map_of (pending_actions (graph m)) aid)"

section \<open>Example states\<close>

definition sector2 :: Location where
  "sector2 = \<lparr>lat = 3778 / 100, lng = - 12241 / 100, address = None,
               sector = Some ''2'', loc_name = None\<rparr>"

definition incident_a :: IncidentNode where
  "incident_a =
     \<lparr>inc_id = ''inc_a'', inc_type = ''incident'', incident_type = ''structural_collapse'', inc_location = sector2,
      damage_level = SEVERE, inc_urgency = CRITICAL, trapped_min = Some 3, trapped_max = Some 8,
      injured_min = None, injured_max = None, inc_confidence = 85 / 100, inc_sources = [],
      inc_created_at = 0, inc_updated_at = 0, inc_contradictions = [], decay_rate = 1 / 100,
      inc_status = ''active'', assigned_resources = []\<rparr>"

definition incident_b :: IncidentNode where
  "incident_b = incident_a\<lparr>inc_id := ''inc_b''\<rparr>"

definition amb7 :: ResourceNode where
  "amb7 =
     \<lparr>res_id = ''AMB-7'', res_type = ''resource'', resource_type = ''ambulance'',
      unit_id = ''AMB-7'',
      current_location = sector2, destination = None, res_status = ''available'',
      assigned_incident = None, personnel = 2, capacity_remaining = 2, eta_minutes = None,
      res_updated_at = 0\<rparr>"

definition amb12 :: ResourceNode where
  "amb12 = amb7\<lparr>res_id := ''AMB-12'', unit_id := ''AMB-12''\<rparr>"

text \<open>\<open>AMB-7\<close> after a dispatch to \<open>inc_a\<close>.\<close>

definition amb7_dispatched :: ResourceNode where
  "amb7_dispatched = amb7\<lparr>res_status := ''dispatched'', assigned_incident := Some ''inc_a'',
                           destination := Some sector2, eta_minutes := Some 8\<rparr>"

definition action_1 :: ActionRecommendation where
  "action_1 =
     \<lparr>act_id = ''action_1'', action_type = ''dispatch_resources'',
      target_incident_id = Some ''inc_a'', target_location = Some sector2,
      target_sector = Some ''2'', resources_to_allocate = [''AMB-7'', ''AMB-12'', ''AMB-15''],
      rationale = ''critical collapse'', supporting_factors = [], act_confidence = 8 / 10,
      tradeoffs = [], uncertainty_factors = [], requires_human_approval = True,
      decision_deadline = 300000000, time_sensitivity = CRITICAL, act_status = ''pending'',
      act_created_at = 0, decided_at = None, decided_by = None\<rparr>"

text \<open>
  An action whose target incident is not in the graph: the planner leaves its
  \<open>target_location\<close> empty.
\<close>

definition action_ghost :: ActionRecommendation where
  "action_ghost = action_1\<lparr>act_id := ''action_2'', target_incident_id := Some ''inc_ghost'',
                            target_location := None, resources_to_allocate := [''AMB-7'']\<rparr>"

text \<open>An action on \<open>inc_a\<close> that carries no location and names \<open>AMB-7\<close> again.\<close>

definition action_again :: ActionRecommendation where
  "action_again = action_1\<lparr>act_id := ''action_3'', target_location := None,
                            resources_to_allocate := [''AMB-7'']\<rparr>"

definition manager_of ::
  "(string \<times> IncidentNode) list \<Rightarrow> (string \<times> ResourceNode) list
     \<Rightarrow> (string \<times> ActionRecommendation) list \<Rightarrow> Manager" where
  "manager_of incs rs acts =
     \<lparr>graph = \<lparr>incidents = incs, resources = rs, contradictions = [],
                pending_actions = acts, last_updated = 0\<rparr>,
      audit_log = []\<rparr>"

definition resolved_alert :: ContradictionAlert where
  "resolved_alert =
     \<lparr>alert_id = ''alert_1'', entity_id = ''main_street_bridge'',
      entity_type = ''infrastructure'', entity_name = ''Main Street Bridge'',
      alert_claims = [], alert_verdict = CONTRADICTION, severity = ''high'',
      temporal_analysis = None, recommended_action = REQUEST_VERIFICATION,
      recommended_action_details = ''Deploy aerial verification'', alert_urgency = HIGH,
      alert_created_at = 0, resolved = True, resolution = Some ''trust_satellite'',
      resolved_by = Some ''operator'', resolved_at = Some 5\<rparr>"

definition resolved_manager :: Manager where
  "resolved_manager =
     \<lparr>graph = \<lparr>incidents = [], resources = [],
                contradictions = [(''alert_1'', resolved_alert)],
                pending_actions = [], last_updated = 5\<rparr>,
      audit_log = []\<rparr>"

definition manager_again :: Manager where
  "manager_again =
     manager_of [(''inc_a'', incident_a\<lparr>assigned_resources := [''AMB-7'']\<rparr>)]
       [(''AMB-7'', amb7_dispatched)] [(''action_3'', action_again)]"

definition manager_ghost :: Manager where
  "manager_ghost =
     manager_of [(''inc_a'', incident_a)] [(''AMB-7'', amb7)] [(''action_2'', action_ghost)]"

definition manager_plain :: Manager where
  "manager_plain =
     manager_of [(''inc_a'', incident_a)] [(''AMB-7'', amb7), (''AMB-12'', amb12)]
       [(''action_1'', action_1)]"

text \<open>\<open>AMB-7\<close> is on its way to \<open>inc_a\<close>; \<open>inc_b\<close> has no resource.\<close>

definition manager_busy :: Manager where
  "manager_busy =
     manager_of
       [(''inc_a'', incident_a\<lparr>assigned_resources := [''AMB-7'']\<rparr>), (''inc_b'', incident_b)]
       [(''AMB-7'', amb7_dispatched)] []"

text \<open>An active incident whose confidence is below the floor of the decay.\<close>

definition manager_faint :: Manager where
  "manager_faint =
     manager_of [(''inc_a'', incident_a\<lparr>inc_confidence := 5 / 100\<rparr>)] [] []"

definition object_manager :: "(pyobject, pyobject) SituationGraphManager" where
  "object_manager =
     \<lparr>graph = \<lparr>incidents = [(''inc_a'', IncidentNode_object incident_a)],
                resources = [(''AMB-7'', ResourceNode_object amb7)],
                contradictions = [], pending_actions = [], last_updated = 0\<rparr>,
      audit_log = []\<rparr>"

text \<open>
  Public methods of the pydantic base class: an assignment to a name that is no field
  is refused with \<open>ValueError\<close> ("object has no field").
\<close>

definition pydantic_methods :: ModelClass where
  "pydantic_methods =
     \<lparr>class_attributes = {''model_dump'', ''model_dump_json'', ''model_copy'', ''dict'', ''json'',
                          ''copy''},
      class_setattr = (\<lambda>key v obj. Inl ValueError)\<rparr>"

text \<open>Stamps in increasing order, any two at least \<open>cd\<close> seconds apart.\<close>

fun spaced :: "real \<Rightarrow> datetime list \<Rightarrow> bool" where
  "spaced cd [] = True"
| "spaced cd (x # xs) = ((\<forall>y \<in> set xs. cd \<le> total_seconds (y - x)) \<and> spaced cd xs)"

definition trigger_coordinator :: Coordinator where
  "trigger_coordinator = (Coordinator_init 0)\<lparr>graph_manager := manager_plain\<rparr>"

text \<open>Five signals within two seconds, and a sixth after twenty-one.\<close>

definition burst :: "(datetime \<times> datetime \<times> Manager) list" where
  "burst =
     [(0, 1, manager_plain), (400000, 400001, manager_plain), (800000, 800001, manager_plain),
      (1200000, 1200001, manager_plain), (1600000, 1600001, manager_plain),
      (21000000, 21000001, manager_plain)]"

text \<open>
  The scripted injection of the demo scenario, and an output of the Verification
  analyzer that carries nothing but a verdict.
\<close>

definition bridge_event :: InjectEvent where
  "bridge_event =
     \<lparr>ie_entity = Some ''Main Street Bridge'',
      ie_claims = Some [ [(''source'', PStr ''audio_003''), (''claim'', PStr ''collapsed''),
                         (''confidence'', PFloat (72 / 100))],
                        [(''source'', PStr ''satellite_001''), (''claim'', PStr ''intact''),
                         (''confidence'', PFloat (89 / 100))]],
      ie_entity_type = Some ''infrastructure'',
      ie_force_verdict = Some ''CONTRADICTION'',
      ie_temporal_analysis = None\<rparr>"

definition verdict_only :: "string \<Rightarrow> VerificationData" where
  "verdict_only v =
     \<lparr>vd_entity_type = None, vd_claims_analyzed = None, vd_contradictions = None,
      vd_verdict = Some v, vd_temporal_analysis = None, vd_recommended_action = None,
      vd_recommended_action_details = None, vd_urgency = None\<rparr>"

text \<open>
  The output of the Text analyzer for a report with two claims about the bridge, the
  coordinator after that text signal, and a schedule in which two calls of the detector
  are in flight at once: both reach the analyzer before either is resumed.
\<close>

definition bridge_report :: TextData where
  "bridge_report =
     \<lparr>td_claims =
        Some [\<lparr>tc_location_name = Some ''Main Street Bridge'', tc_claim = Some ''bridge collapsed'',
               tc_confidence = Some (72 / 100)\<rparr>,
              \<lparr>tc_location_name = Some ''Main Street Bridge'', tc_claim = Some ''bridge intact'',
               tc_confidence = Some (89 / 100)\<rparr>],
      td_source_type = Some ''unverified''\<rparr>"

definition bridge_coordinator :: Coordinator where
  "bridge_coordinator = update_graph_from_text_output 0 ''5f3a9c1e'' bridge_report (Coordinator_init 0)"

definition racing_schedule :: "sched_step list" where
  "racing_schedule =
     [Start_check, Start_check,
      Verification_returns 0 ''aaaaaaaa'' 1 (Inr (verdict_only ''CONTRADICTION'')),
      Broadcast_returns 0,
      Verification_returns 1 ''bbbbbbbb'' 2 (Inr (verdict_only ''CONTRADICTION''))]"

section \<open>Facts about strings\<close>

lemma str_in_sublist: "str_in sub s \<longleftrightarrow> sublist sub s"
  by (induction s) (simp_all add: sublist_Cons_right)

lemma lower_char_idem: "lower_char (lower_char c) = lower_char c"
proof -
  have "of_char (char_of (of_char c + 32 :: nat)) = (of_char c + 32 :: nat)"
    if "(of_char c :: nat) \<le> 90"
    using that by simp
  then show ?thesis
    by (auto simp: lower_char_def Let_def)
qed

lemma str_lower_idem: "str_lower (str_lower s) = str_lower s"
  by (simp add: str_lower_def lower_char_idem)

section \<open>Urgency parsing\<close>

lemma upper_case_letters: "map char_of [65 ..< 91 :: nat] = ''ABCDEFGHIJKLMNOPQRSTUVWXYZ''"
  by code_simp

lemma lower_char_upper:
  "list_all (\<lambda>(u, l). lower_char u = l)
     (zip ''ABCDEFGHIJKLMNOPQRSTUVWXYZ'' ''abcdefghijklmnopqrstuvwxyz'')"
  by code_simp

lemma lower_char_other:
  assumes "c \<notin> set ''ABCDEFGHIJKLMNOPQRSTUVWXYZ''"
  shows "lower_char c = c"
proof -
  have "\<not> (65 \<le> (of_char c :: nat) \<and> (of_char c :: nat) \<le> 90)"
  proof
    assume "65 \<le> (of_char c :: nat) \<and> (of_char c :: nat) \<le> 90"
    then have "(of_char c :: nat) \<in> {65 ..< 91}" by simp
    then have "(of_char c :: nat) \<in> set [65 ..< 91]" by (simp only: set_upt)
    then have "char_of (of_char c :: nat) \<in> set (map char_of [65 ..< 91 :: nat])"
      by (simp only: set_map image_eqI)
    then show False
      using assms by (simp only: upper_case_letters char_of_char)
  qed
  then show ?thesis
    unfolding lower_char_def Let_def by (simp only: if_False)
qed

lemma letters_apart:
  "c \<in> set ''ABCDEFGHIJKLMNOPQRSTUVWXYZ'' \<Longrightarrow> c \<notin> set ''abcdefghijklmnopqrstuvwxyz''"
  by auto

lemma lower_char_same_letter:
  assumes "d \<in> set ''abcdefghijklmnopqrstuvwxyz''"
  shows "lower_char c = d \<longleftrightarrow> same_letter c d"
proof -
  let ?U = "''ABCDEFGHIJKLMNOPQRSTUVWXYZ''"
  let ?L = "''abcdefghijklmnopqrstuvwxyz''"
  have len: "length ?U = length ?L" by simp
  have keys: "map fst (zip ?U ?L) = ?U"
    using len by (rule map_fst_zip)
  have dist: "distinct (map fst (zip ?U ?L))"
    unfolding keys by simp
  have same: "same_letter c d \<longleftrightarrow> c = d \<or> map_of (zip ?U ?L) c = Some d"
    unfolding same_letter_def map_of_eq_Some_iff [OF dist] ..
  show ?thesis
  proof (cases "map_of (zip ?U ?L) c")
    case None
    then have "c \<notin> set (map fst (zip ?U ?L))"
      by (simp only: map_of_eq_None_iff set_map not_False_eq_True)
    then have "c \<notin> set ?U"
      unfolding keys .
    then have "lower_char c = c"
      by (rule lower_char_other)
    then show ?thesis
      unfolding same None by auto
  next
    case (Some l)
    then have in_z: "(c, l) \<in> set (zip ?U ?L)"
      by (rule map_of_SomeD)
    have "case (c, l) of (u, y) \<Rightarrow> lower_char u = y"
      using lower_char_upper [unfolded list_all_iff] in_z by (rule bspec)
    then have low: "lower_char c = l"
      by (simp only: prod.case)
    have "c \<in> set ?U"
      using in_z by (rule set_zip_leftD)
    then have "c \<noteq> d"
      using assms letters_apart by blast
    then show ?thesis
      unfolding same Some low by auto
  qed
qed


lemma map_eq_list_all2: "map f xs = ys \<longleftrightarrow> list_all2 (\<lambda>x y. f x = y) xs ys"
  by (induction xs arbitrary: ys) (auto simp: list_all2_Cons1)

lemma list_all2_on_right:
  "(\<And>x y. y \<in> set ys \<Longrightarrow> P x y = Q x y) \<Longrightarrow> list_all2 P xs ys = list_all2 Q xs ys"
  by (induction xs arbitrary: ys) (auto simp: list_all2_Cons1)

lemma sublist_map_iff:
  "sublist word (map f s) \<longleftrightarrow> (\<exists>ps t ss. s = ps @ t @ ss \<and> map f t = word)"
proof
  assume "sublist word (map f s)"
  then obtain xs ys where "map f s = xs @ word @ ys"
    unfolding sublist_def by blast
  let ?ps = "take (length xs) s"
  let ?t = "take (length word) (drop (length xs) s)"
  let ?ss = "drop (length word) (drop (length xs) s)"
  have "s = ?ps @ ?t @ ?ss"
    by (simp only: append_take_drop_id)
  moreover have "map f ?t = take (length word) (drop (length xs) (map f s))"
    by (simp only: take_map drop_map)
  then have "map f ?t = word"
    by (simp add: \<open>map f s = xs @ word @ ys\<close>)
  ultimately show "\<exists>ps t ss. s = ps @ t @ ss \<and> map f t = word"
    by blast
next
  assume "\<exists>ps t ss. s = ps @ t @ ss \<and> map f t = word"
  then obtain ps t ss where "s = ps @ t @ ss" "map f t = word"
    by blast
  then have "map f s = map f ps @ word @ map f ss"
    by simp
  then show "sublist word (map f s)"
    unfolding sublist_def by blast
qed

lemma sublist_lower_iff:
  assumes "set word \<subseteq> set ''abcdefghijklmnopqrstuvwxyz''"
  shows "sublist word (str_lower s) \<longleftrightarrow> occurs_ignoring_case word s"
proof -
  have eq: "list_all2 (\<lambda>x y. lower_char x = y) t word = list_all2 same_letter t word" for t
    by (rule list_all2_on_right) (use assms lower_char_same_letter in blast)
  show ?thesis
    unfolding str_lower_def sublist_map_iff occurs_ignoring_case_def map_eq_list_all2 eq ..
qed

lemma parse_urgency_examples:
  "parse_urgency ''CRITICAL - act now'' = Inr CRITICAL"
  "parse_urgency ''Urgency: High (not low)'' = Inr HIGH"
  "parse_urgency ''MeDiUm'' = Inr MEDIUM"
  "parse_urgency ''LOW'' = Inr LOW"
  "parse_urgency ''unknown'' = Inr HIGH"
  by code_simp+

text \<open>
  C9.  \<open>_parse_urgency\<close> never raises.  It returns the first of critical, high, medium,
  low (in this order) that occurs in the input without regard to the case of its
  letters, so a string holding several of them maps to the earliest in that order; a
  string holding none of them maps to high.
\<close>

theorem parse_urgency_first_match:
  "parse_urgency raw =
     Inr (if occurs_ignoring_case ''critical'' raw then CRITICAL
          else if occurs_ignoring_case ''high'' raw then HIGH
          else if occurs_ignoring_case ''medium'' raw then MEDIUM
          else if occurs_ignoring_case ''low'' raw then LOW
          else HIGH)
   \<and> parse_urgency ''CRITICAL - act now'' = Inr CRITICAL
   \<and> parse_urgency ''Urgency: High (not low)'' = Inr HIGH
   \<and> parse_urgency ''MeDiUm'' = Inr MEDIUM
   \<and> parse_urgency ''LOW'' = Inr LOW
   \<and> parse_urgency ''unknown'' = Inr HIGH"
proof -
  have w: "sublist ''critical'' (str_lower raw) \<longleftrightarrow> occurs_ignoring_case ''critical'' raw"
    "sublist ''high'' (str_lower raw) \<longleftrightarrow> occurs_ignoring_case ''high'' raw"
    "sublist ''medium'' (str_lower raw) \<longleftrightarrow> occurs_ignoring_case ''medium'' raw"
    "sublist ''low'' (str_lower raw) \<longleftrightarrow> occurs_ignoring_case ''low'' raw"
    by (rule sublist_lower_iff, simp)+
  have "parse_urgency raw =
     Inr (if sublist ''critical'' (str_lower raw) then CRITICAL
          else if sublist ''high'' (str_lower raw) then HIGH
          else if sublist ''medium'' (str_lower raw) then MEDIUM
          else if sublist ''low'' (str_lower raw) then LOW
          else HIGH)"
    by (simp add: parse_urgency_def Urgency_of_value_def str_in_sublist)
  then show ?thesis
    unfolding w by (simp only: parse_urgency_examples simp_thms)
qed

theorem parse_urgency_first_match_witness:
  "occurs_ignoring_case ''critical'' ''Status HIGH, trending CRITICAL''
   \<and> occurs_ignoring_case ''high'' ''Status HIGH, trending CRITICAL''
   \<and> parse_urgency ''Status HIGH, trending CRITICAL'' = Inr CRITICAL"
proof -
  have "''Status HIGH, trending CRITICAL'' = ''Status HIGH, trending '' @ ''CRITICAL'' @ ''''"
    by simp
  moreover have "list_all2 same_letter ''CRITICAL'' ''critical''"
    by (simp add: same_letter_def)
  ultimately have a: "occurs_ignoring_case ''critical'' ''Status HIGH, trending CRITICAL''"
    unfolding occurs_ignoring_case_def by blast
  have "''Status HIGH, trending CRITICAL'' = ''Status '' @ ''HIGH'' @ '', trending CRITICAL''"
    by simp
  moreover have "list_all2 same_letter ''HIGH'' ''high''"
    by (simp add: same_letter_def)
  ultimately have b: "occurs_ignoring_case ''high'' ''Status HIGH, trending CRITICAL''"
    unfolding occurs_ignoring_case_def by blast
  from parse_urgency_first_match [of "''Status HIGH, trending CRITICAL''"] a b
  show ?thesis by (simp only: if_True simp_thms)
qed

section \<open>Resolving a contradiction\<close>

lemma resolved_update_True: "resolved a \<Longrightarrow> a\<lparr>resolved := True\<rparr> = a"
  by (cases a) simp

text \<open>
  C6 (as amended).  \<open>resolve_contradiction\<close> has no guard on \<open>resolved\<close>: on an alert that
  is already resolved it keeps \<open>resolved = true\<close> and every other field, and overwrites
  \<open>resolution\<close>, \<open>resolved_by\<close> and \<open>resolved_at\<close> with the arguments and the clock of the
  new call; the other dictionaries of the graph are unchanged.
\<close>

theorem resolve_contradiction_again:
  assumes "map_of (contradictions (graph m)) aid = Some alert" and "resolved alert"
  shows "fst (resolve_contradiction now aid res who m) =
           Some (alert\<lparr>resolution := Some res, resolved_by := Some who,
                       resolved_at := Some now\<rparr>)
         \<and> contradictions (graph (snd (resolve_contradiction now aid res who m))) =
           AList.update aid
             (alert\<lparr>resolution := Some res, resolved_by := Some who, resolved_at := Some now\<rparr>)
             (contradictions (graph m))
         \<and> incidents (graph (snd (resolve_contradiction now aid res who m))) = incidents (graph m)
         \<and> resources (graph (snd (resolve_contradiction now aid res who m))) = resources (graph m)
         \<and> pending_actions (graph (snd (resolve_contradiction now aid res who m))) =
             pending_actions (graph m)"
  using assms
  by (simp add: resolve_contradiction_def log_event_def resolved_update_True Let_def)

theorem resolve_contradiction_again_witness:
  "map_of (contradictions (graph resolved_manager)) ''alert_1'' = Some resolved_alert
   \<and> resolved resolved_alert
   \<and> fst (resolve_contradiction 9 ''alert_1'' ''trust_satellite'' ''operator'' resolved_manager) =
       Some (resolved_alert\<lparr>resolved_at := Some 9\<rparr>)"
proof -
  have a: "map_of (contradictions (graph resolved_manager)) ''alert_1'' = Some resolved_alert"
    by (simp add: resolved_manager_def)
  have b: "resolved resolved_alert"
    by (simp add: resolved_alert_def)
  from resolve_contradiction_again [OF a b, of 9 "''trust_satellite''" "''operator''"]
  show ?thesis using a b by (simp add: resolved_alert_def)
qed

text \<open>
  The claim as stated fails: a second call with another resolution returns a record
  that differs from the resolved one.
\<close>

theorem resolve_contradiction_not_noop:
  "resolved resolved_alert
   \<and> map_of (contradictions (graph resolved_manager)) ''alert_1'' = Some resolved_alert
   \<and> fst (resolve_contradiction 9 ''alert_1'' ''trust_audio'' ''supervisor'' resolved_manager) =
       Some (resolved_alert\<lparr>resolution := Some ''trust_audio'',
                            resolved_by := Some ''supervisor'', resolved_at := Some 9\<rparr>)
   \<and> fst (resolve_contradiction 9 ''alert_1'' ''trust_audio'' ''supervisor'' resolved_manager) \<noteq>
       Some resolved_alert"
  by (simp add: resolve_contradiction_def resolved_manager_def resolved_alert_def log_event_def
      Let_def)

section \<open>Confidence decay\<close>

lemma map_of_map_values:
  "map_of (map (\<lambda>(k, y). (k, f y)) al) k = map_option f (map_of al k)"
  by (induction al) auto

text \<open>
  C5 (as amended).  For every incident of the graph, \<open>decay_confidences(t)\<close> sets the
  confidence of an active incident to \<open>max(0.1, confidence - decay_rate * t)\<close> and leaves
  an incident of any other status unchanged; the confidence of an active incident is at
  least 0.1 afterwards, no confidence falls below the smaller of 0.1 and its old value,
  and the confidence does not increase when \<open>t \<ge> 0\<close>, \<open>decay_rate \<ge> 0\<close> and the old
  confidence is at least 0.1 (an active incident below 0.1 is raised to 0.1).
\<close>

theorem decay_confidences_floor:
  assumes "map_of (incidents (graph m)) k = Some i"
  shows "\<exists>i'. map_of (incidents (graph (decay_confidences now t m))) k = Some i'
           \<and> i' = (if inc_status i = ''active''
                   then i\<lparr>inc_confidence := max (1 / 10) (inc_confidence i - decay_rate i * t)\<rparr>
                   else i)
           \<and> (inc_status i = ''active'' \<longrightarrow> 1 / 10 \<le> inc_confidence i')
           \<and> min (1 / 10) (inc_confidence i) \<le> inc_confidence i'
           \<and> (0 \<le> t \<and> 0 \<le> decay_rate i \<and> 1 / 10 \<le> inc_confidence i
                \<longrightarrow> inc_confidence i' \<le> inc_confidence i)"
proof -
  have "map_of (incidents (graph (decay_confidences now t m))) k = Some (decay_incident t i)"
    using assms by (simp add: decay_confidences_def map_of_map_values)
  moreover have "0 \<le> decay_rate i * t" if "0 \<le> t" "0 \<le> decay_rate i"
    using that by simp
  ultimately show ?thesis
    by (auto simp: decay_incident_def Let_def max_def min_def)
qed

theorem decay_confidences_floor_witness:
  "map_of (incidents (graph manager_plain)) ''inc_a'' = Some incident_a
   \<and> inc_status incident_a = ''active''
   \<and> map_option inc_confidence
       (map_of (incidents (graph (decay_confidences 1 5 manager_plain))) ''inc_a'') =
       Some (80 / 100)
   \<and> map_option inc_confidence
       (map_of (incidents (graph (decay_confidences 1 1000 manager_plain))) ''inc_a'') =
       Some (10 / 100)"
proof -
  have a: "map_of (incidents (graph manager_plain)) ''inc_a'' = Some incident_a"
    by (simp add: manager_plain_def manager_of_def)
  from decay_confidences_floor [OF a, of 1 5] decay_confidences_floor [OF a, of 1 1000]
  show ?thesis using a by (auto simp: incident_a_def)
qed

text \<open>
  The claim as stated fails: an active incident of confidence 0.05 leaves the decay with
  confidence 0.1, which is an increase.
\<close>

theorem decay_confidences_raises:
  "map_of (incidents (graph manager_faint)) ''inc_a'' =
       Some (incident_a\<lparr>inc_confidence := 5 / 100\<rparr>)
   \<and> inc_status (incident_a\<lparr>inc_confidence := 5 / 100\<rparr>) = ''active''
   \<and> map_option inc_confidence
       (map_of (incidents (graph (decay_confidences 1 5 manager_faint))) ''inc_a'') =
       Some (10 / 100)
   \<and> inc_confidence (incident_a\<lparr>inc_confidence := 5 / 100\<rparr>) < 10 / 100"
  by (simp add: decay_confidences_def decay_incident_def manager_faint_def manager_of_def
      incident_a_def Let_def)

section \<open>Manual assignment and unassignment\<close>

text \<open>
  C7 (as amended).  For a resource that is available with no incident, no destination
  and no ETA, and an incident with a non-empty id that does not list the resource,
  \<open>assign_resource_manual\<close> followed by \<open>unassign_resource\<close> restores the resource and the
  incident but for their \<open>updated_at\<close>, and leaves every other entry of the graph as it
  was.
\<close>

theorem assign_unassign_roundtrip:
  assumes r: "map_of (resources (graph m)) rid = Some r"
    and i: "map_of (incidents (graph m)) iid = Some i"
    and clean: "res_status r = ''available''" "assigned_incident r = None"
      "destination r = None" "eta_minutes r = None"
    and fresh: "rid \<notin> set (assigned_resources i)"
    and iid: "iid \<noteq> []"
  shows "resources (graph (snd (unassign_resource t2 rid (snd (assign_resource_manual t1 rid iid m))))) =
           AList.update rid (r\<lparr>res_updated_at := t2\<rparr>) (resources (graph m))
       \<and> incidents (graph (snd (unassign_resource t2 rid (snd (assign_resource_manual t1 rid iid m))))) =
           AList.update iid (i\<lparr>inc_updated_at := t1\<rparr>) (incidents (graph m))
       \<and> contradictions (graph (snd (unassign_resource t2 rid (snd (assign_resource_manual t1 rid iid m))))) =
           contradictions (graph m)
       \<and> pending_actions (graph (snd (unassign_resource t2 rid (snd (assign_resource_manual t1 rid iid m))))) =
           pending_actions (graph m)"
proof -
  have r': "r\<lparr>res_status := ''available'', assigned_incident := None, destination := None,
              eta_minutes := None, res_updated_at := t2\<rparr> = r\<lparr>res_updated_at := t2\<rparr>"
    using clean by (cases r) simp
  have rem: "remove1 rid (assigned_resources i @ [rid]) = assigned_resources i"
    using fresh by (simp add: remove1_append)
  have i': "i\<lparr>inc_updated_at := t1, assigned_resources := assigned_resources i\<rparr> =
              i\<lparr>inc_updated_at := t1\<rparr>"
    by (cases i) simp
  show ?thesis
    using r i fresh iid
    by (simp add: assign_resource_manual_def unassign_resource_def log_event_def Let_def
        update_conv' truthy_key_def r' rem i')
qed

theorem assign_unassign_roundtrip_witness:
  "map_of (resources (graph manager_plain)) ''AMB-7'' = Some amb7
   \<and> map_of (incidents (graph manager_plain)) ''inc_a'' = Some incident_a
   \<and> resources (graph (snd (unassign_resource 2 ''AMB-7''
        (snd (assign_resource_manual 1 ''AMB-7'' ''inc_a'' manager_plain))))) =
       [(''AMB-7'', amb7\<lparr>res_updated_at := 2\<rparr>), (''AMB-12'', amb12)]
   \<and> incidents (graph (snd (unassign_resource 2 ''AMB-7''
        (snd (assign_resource_manual 1 ''AMB-7'' ''inc_a'' manager_plain))))) =
       [(''inc_a'', incident_a\<lparr>inc_updated_at := 1\<rparr>)]"
proof -
  have a: "map_of (resources (graph manager_plain)) ''AMB-7'' = Some amb7"
    and b: "map_of (incidents (graph manager_plain)) ''inc_a'' = Some incident_a"
    by (simp_all add: manager_plain_def manager_of_def)
  have c: "res_status amb7 = ''available''" "assigned_incident amb7 = None"
    "destination amb7 = None" "eta_minutes amb7 = None"
    by (simp_all add: amb7_def)
  have d: "''AMB-7'' \<notin> set (assigned_resources incident_a)" "''inc_a'' \<noteq> []"
    by (simp_all add: incident_a_def)
  from assign_unassign_roundtrip [OF a b c d, of 2 1]
  show ?thesis using a b by (simp add: manager_plain_def manager_of_def)
qed

text \<open>
  The claim as stated fails: a resource that is on its way to \<open>inc_a\<close> comes back from
  assign-to-\<open>inc_b\<close> and unassign as available, with no incident and no destination.
\<close>

theorem assign_unassign_not_restored:
  "map_of (resources (graph manager_busy)) ''AMB-7'' = Some amb7_dispatched
   \<and> map_of (incidents (graph manager_busy)) ''inc_b'' = Some incident_b
   \<and> map_of (resources (graph (snd (unassign_resource 2 ''AMB-7''
        (snd (assign_resource_manual 1 ''AMB-7'' ''inc_b'' manager_busy)))))) ''AMB-7'' =
       Some (amb7\<lparr>res_updated_at := 2\<rparr>)
   \<and> res_status amb7_dispatched = ''dispatched''
   \<and> res_status (amb7\<lparr>res_updated_at := 2\<rparr>) = ''available''
   \<and> assigned_incident amb7_dispatched = Some ''inc_a''
   \<and> assigned_incident (amb7\<lparr>res_updated_at := 2\<rparr>) = None
   \<and> destination amb7_dispatched = Some sector2
   \<and> destination (amb7\<lparr>res_updated_at := 2\<rparr>) = None"
  by (simp add: assign_resource_manual_def unassign_resource_def log_event_def Let_def
      truthy_key_def manager_busy_def manager_of_def amb7_dispatched_def amb7_def
      incident_b_def incident_a_def)

section \<open>Approving an action\<close>

lemma dispatch_fields_idem:
  "dispatch_fields now a (dispatch_fields now a r) = dispatch_fields now a r"
  by (cases r) (simp add: dispatch_fields_def Let_def split: option.splits)

lemma map_of_dispatch_resource:
  "map_of (dispatch_resource now a rs x) =
     (\<lambda>k. if k = x then map_option (dispatch_fields now a) (map_of rs k) else map_of rs k)"
  by (auto simp: dispatch_resource_def update_conv' split: option.splits)

lemma map_of_foldl_dispatch:
  "map_of (foldl (dispatch_resource now a) rs ids) k =
     (if k \<in> set ids then map_option (dispatch_fields now a) (map_of rs k) else map_of rs k)"
proof (induction ids arbitrary: rs)
  case Nil
  then show ?case by simp
next
  case (Cons x ids)
  show ?case
    by (cases "map_of rs k")
       (auto simp: Cons.IH map_of_dispatch_resource dispatch_fields_idem)
qed

text \<open>
  C1 (as amended).  For an action id of the pending-actions map, \<open>approve_action\<close>
  returns the action with status \<open>approved\<close> and \<open>decided_at\<close>/\<open>decided_by\<close> stamped, and
  stores it; every listed resource id that is in the resource map gets status
  \<open>dispatched\<close>, the action's \<open>target_incident_id\<close>, ETA 8 and, when the action has a
  \<open>target_location\<close>, that destination (its old destination stays otherwise); resources
  that are not listed are unchanged; the target incident, when its id is non-empty and in
  the graph, gets status \<open>responding\<close> and lists afterwards exactly the ids it listed
  before and the ids of the action.
\<close>

theorem approve_action_effect:
  assumes a: "map_of (pending_actions (graph m)) aid = Some a"
  shows "fst (approve_action now aid who m) =
           Some (a\<lparr>act_status := ''approved'', decided_at := Some now, decided_by := Some who\<rparr>)
     \<and> map_of (pending_actions (graph (snd (approve_action now aid who m)))) aid =
           Some (a\<lparr>act_status := ''approved'', decided_at := Some now, decided_by := Some who\<rparr>)
     \<and> (\<forall>rid r. rid \<in> set (resources_to_allocate a) \<and> map_of (resources (graph m)) rid = Some r
          \<longrightarrow> map_of (resources (graph (snd (approve_action now aid who m)))) rid =
                Some (r\<lparr>res_status := ''dispatched'',
                        assigned_incident := target_incident_id a,
                        eta_minutes := Some 8,
                        res_updated_at := now,
                        destination := (case target_location a of
                                          Some l \<Rightarrow> Some l
                                        | None \<Rightarrow> destination r)\<rparr>))
     \<and> (\<forall>rid. rid \<notin> set (resources_to_allocate a)
          \<longrightarrow> map_of (resources (graph (snd (approve_action now aid who m)))) rid =
                map_of (resources (graph m)) rid)
     \<and> (\<forall>tid i. target_incident_id a = Some tid \<and> tid \<noteq> [] \<and>
                map_of (incidents (graph m)) tid = Some i
          \<longrightarrow> (\<exists>i'. map_of (incidents (graph (snd (approve_action now aid who m)))) tid = Some i'
                 \<and> inc_status i' = ''responding''
                 \<and> set (assigned_resources i') =
                     set (assigned_resources i) \<union> set (resources_to_allocate a)))"
proof -
  have df: "dispatch_fields now
              (a\<lparr>act_status := ''approved'', decided_at := Some now, decided_by := Some who\<rparr>) r =
            r\<lparr>res_status := ''dispatched'', assigned_incident := target_incident_id a,
              eta_minutes := Some 8, res_updated_at := now,
              destination := (case target_location a of Some l \<Rightarrow> Some l | None \<Rightarrow> destination r)\<rparr>"
    for r
    by (cases r) (simp add: dispatch_fields_def Let_def split: option.splits)
  show ?thesis
    using a
    by (simp add: approve_action_def log_event_def Let_def update_conv' map_of_foldl_dispatch
        truthy_key_def df)
qed

theorem approve_action_effect_witness:
  "map_of (pending_actions (graph manager_plain)) ''action_1'' = Some action_1
   \<and> map_option act_status (fst (approve_action 1 ''action_1'' ''operator'' manager_plain)) =
       Some ''approved''
   \<and> map_of (resources (graph (snd (approve_action 1 ''action_1'' ''operator'' manager_plain))))
       ''AMB-12'' =
       Some (amb12\<lparr>res_status := ''dispatched'', assigned_incident := Some ''inc_a'',
                   eta_minutes := Some 8, res_updated_at := 1, destination := Some sector2\<rparr>)
   \<and> map_option inc_status
       (map_of (incidents (graph (snd (approve_action 1 ''action_1'' ''operator'' manager_plain))))
          ''inc_a'') = Some ''responding''"
proof -
  have a: "map_of (pending_actions (graph manager_plain)) ''action_1'' = Some action_1"
    by (simp add: manager_plain_def manager_of_def)
  have b: "''AMB-12'' \<in> set (resources_to_allocate action_1)"
    "map_of (resources (graph manager_plain)) ''AMB-12'' = Some amb12"
    "target_incident_id action_1 = Some ''inc_a''" "target_location action_1 = Some sector2"
    "map_of (incidents (graph manager_plain)) ''inc_a'' = Some incident_a"
    by (simp_all add: manager_plain_def manager_of_def action_1_def)
  from approve_action_effect [OF a, of 1 "''operator''"]
  show ?thesis using a b by (auto simp: action_1_def)
qed

text \<open>
  The claim as stated fails: an action without a \<open>target_location\<close> leaves the old
  destination of the resource in place, and the ids are appended without a membership
  test, so an id that the incident already lists appears twice.
\<close>

theorem approve_action_keeps_destination_and_duplicates:
  "map_of (pending_actions (graph manager_again)) ''action_3'' = Some action_again
   \<and> resources_to_allocate action_again = [''AMB-7'']
   \<and> target_location action_again = None
   \<and> map_option destination
       (map_of (resources (graph (snd (approve_action 1 ''action_3'' ''operator'' manager_again))))
          ''AMB-7'') = Some (Some sector2)
   \<and> target_incident_id action_again = Some ''inc_a''
   \<and> map_option assigned_resources
       (map_of (incidents (graph (snd (approve_action 1 ''action_3'' ''operator'' manager_again))))
          ''inc_a'') = Some [''AMB-7'', ''AMB-7'']"
  by (simp add: approve_action_def dispatch_resource_def dispatch_fields_def log_event_def Let_def
      truthy_key_def manager_again_def manager_of_def action_again_def action_1_def
      amb7_dispatched_def amb7_def incident_a_def)

section \<open>The resource invariant under mutations\<close>

lemma action_targets_apply: "action_targets (apply_mutation now op m) = action_targets m"
proof (cases op)
  case (Approve_action aid who)
  then show ?thesis
    by (auto simp: action_targets_def approve_action_def log_event_def Let_def update_conv'
        fun_eq_iff split: option.splits)
next
  case (Assign_resource_manual rid iid)
  then show ?thesis
    by (auto simp: action_targets_def assign_resource_manual_def log_event_def Let_def
        fun_eq_iff split: option.splits)
next
  case (Unassign_resource rid)
  then show ?thesis
    by (auto simp: action_targets_def unassign_resource_def log_event_def Let_def
        fun_eq_iff split: option.splits)
qed

lemma dispatch_fields_invariant:
  "target_incident_id a \<noteq> None \<Longrightarrow> target_location a \<noteq> None
     \<Longrightarrow> resource_invariant (dispatch_fields now a r)"
  by (auto simp: resource_invariant_def dispatch_fields_def Let_def)

lemma approve_action_ok:
  assumes "resources_ok m"
    and "\<And>a. map_of (pending_actions (graph m)) aid = Some a
           \<Longrightarrow> target_incident_id a \<noteq> None \<and> target_location a \<noteq> None"
  shows "resources_ok (snd (approve_action now aid who m))"
proof (cases "map_of (pending_actions (graph m)) aid")
  case None
  then show ?thesis using assms(1) by (simp add: approve_action_def)
next
  case (Some a)
  let ?a = "a\<lparr>act_status := ''approved'', decided_at := Some now, decided_by := Some who\<rparr>"
  have t: "target_incident_id ?a \<noteq> None" "target_location ?a \<noteq> None"
    using assms(2) [OF Some] by simp_all
  have res: "resources (graph (snd (approve_action now aid who m))) =
               foldl (dispatch_resource now ?a) (resources (graph m)) (resources_to_allocate a)"
    using Some by (simp add: approve_action_def log_event_def Let_def)
  show ?thesis
    unfolding resources_ok_def res
  proof (intro allI impI)
    fix rid r
    assume "map_of (foldl (dispatch_resource now ?a) (resources (graph m))
                      (resources_to_allocate a)) rid = Some r"
    then have "(\<exists>r0. map_of (resources (graph m)) rid = Some r0 \<and> r = dispatch_fields now ?a r0)
               \<or> map_of (resources (graph m)) rid = Some r"
      by (auto simp: map_of_foldl_dispatch split: if_splits)
    then show "resource_invariant r"
      using assms(1) dispatch_fields_invariant [OF t]
      by (auto simp: resources_ok_def)
  qed
qed

lemma assign_resource_manual_ok:
  assumes "resources_ok m"
  shows "resources_ok (snd (assign_resource_manual now rid iid m))"
  using assms
  by (auto simp: resources_ok_def assign_resource_manual_def log_event_def Let_def update_conv'
      resource_invariant_def split: option.splits if_splits)

lemma unassign_resource_ok:
  assumes "resources_ok m"
  shows "resources_ok (snd (unassign_resource now rid m))"
  using assms
  by (auto simp: resources_ok_def unassign_resource_def log_event_def Let_def update_conv'
      resource_invariant_def split: option.splits if_splits)

lemma run_mutations_ok:
  assumes "resources_ok m"
    and "\<And>t aid who ti tl. (t, Approve_action aid who) \<in> set ops
           \<Longrightarrow> action_targets m aid = Some (ti, tl) \<Longrightarrow> ti \<noteq> None \<and> tl \<noteq> None"
  shows "resources_ok (run_mutations ops m)"
  using assms
proof (induction ops arbitrary: m)
  case Nil
  then show ?case by simp
next
  case (Cons top ops)
  obtain now op where top: "top = (now, op)" by (cases top)
  have step: "resources_ok (apply_mutation now op m)"
  proof (cases op)
    case (Approve_action aid who)
    have "target_incident_id a \<noteq> None \<and> target_location a \<noteq> None"
      if "map_of (pending_actions (graph m)) aid = Some a" for a
      using Cons.prems(2) [of now aid who "target_incident_id a" "target_location a"] that
      by (simp add: top Approve_action action_targets_def)
    then show ?thesis
      using Approve_action approve_action_ok [OF Cons.prems(1)] by simp
  next
    case (Assign_resource_manual rid iid)
    then show ?thesis using assign_resource_manual_ok [OF Cons.prems(1)] by simp
  next
    case (Unassign_resource rid)
    then show ?thesis using unassign_resource_ok [OF Cons.prems(1)] by simp
  qed
  have "resources_ok (run_mutations ops (apply_mutation now op m))"
  proof (rule Cons.IH [OF step])
    fix t aid who ti tl
    assume "(t, Approve_action aid who) \<in> set ops"
      and "action_targets (apply_mutation now op m) aid = Some (ti, tl)"
    then show "ti \<noteq> None \<and> tl \<noteq> None"
      using Cons.prems(2) [of t aid who ti tl] by (simp add: action_targets_apply)
  qed
  then show ?case by (simp add: top)
qed

text \<open>
  C3 (as amended).  If every resource of the graph satisfies the invariant (dispatched
  implies an incident and a destination, available implies no incident), it still does
  after any sequence of \<open>approve_action\<close>, \<open>assign_resource_manual\<close> and
  \<open>unassign_resource\<close> calls in which every approved action that is in the graph has a
  \<open>target_incident_id\<close> and a \<open>target_location\<close>.
\<close>

theorem resource_invariant_preserved:
  assumes "\<forall>rid r. map_of (resources (graph m)) rid = Some r \<longrightarrow> resource_invariant r"
    and "\<forall>t aid who a. (t, Approve_action aid who) \<in> set ops \<and>
            map_of (pending_actions (graph m)) aid = Some a
          \<longrightarrow> target_incident_id a \<noteq> None \<and> target_location a \<noteq> None"
  shows "\<forall>rid r. map_of (resources (graph (run_mutations ops m))) rid = Some r
           \<longrightarrow> resource_invariant r"
proof -
  have "resources_ok (run_mutations ops m)"
  proof (rule run_mutations_ok)
    show "resources_ok m"
      using assms(1) by (simp add: resources_ok_def)
  next
    fix t aid who ti tl
    assume "(t, Approve_action aid who) \<in> set ops" and "action_targets m aid = Some (ti, tl)"
    then show "ti \<noteq> None \<and> tl \<noteq> None"
      using assms(2) by (auto simp: action_targets_def)
  qed
  then show ?thesis
    by (simp add: resources_ok_def)
qed

theorem resource_invariant_preserved_witness:
  "resources_ok manager_plain
   \<and> map_of (pending_actions (graph manager_plain)) ''action_1'' = Some action_1
   \<and> target_incident_id action_1 = Some ''inc_a'' \<and> target_location action_1 = Some sector2
   \<and> (\<exists>r. map_of (resources (graph (run_mutations
              [(1, Approve_action ''action_1'' ''operator''),
               (2, Unassign_resource ''AMB-12''),
               (3, Assign_resource_manual ''AMB-12'' ''inc_a'')] manager_plain))) ''AMB-7'' = Some r
          \<and> res_status r = ''dispatched'' \<and> resource_invariant r)"
proof -
  let ?ops = "[(1, Approve_action ''action_1'' ''operator''),
               (2, Unassign_resource ''AMB-12''),
               (3, Assign_resource_manual ''AMB-12'' ''inc_a'')]"
  have inv: "\<forall>rid r. map_of (resources (graph manager_plain)) rid = Some r \<longrightarrow> resource_invariant r"
    by (simp add: manager_plain_def manager_of_def resource_invariant_def amb7_def amb12_def)
  have tg: "\<forall>t aid who a. (t, Approve_action aid who) \<in> set ?ops \<and>
              map_of (pending_actions (graph manager_plain)) aid = Some a
            \<longrightarrow> target_incident_id a \<noteq> None \<and> target_location a \<noteq> None"
    by (auto simp: manager_plain_def manager_of_def action_1_def)
  have look: "map_of (resources (graph (run_mutations ?ops manager_plain))) ''AMB-7'' =
                Some (amb7\<lparr>res_status := ''dispatched'', assigned_incident := Some ''inc_a'',
                           eta_minutes := Some 8, res_updated_at := 1,
                           destination := Some sector2\<rparr>)"
    by (simp add: approve_action_def assign_resource_manual_def unassign_resource_def
        dispatch_resource_def dispatch_fields_def log_event_def Let_def truthy_key_def
        manager_plain_def manager_of_def action_1_def amb7_def amb12_def incident_a_def)
  from resource_invariant_preserved [OF inv tg] look
  show ?thesis
    using inv by (auto simp: resources_ok_def manager_plain_def manager_of_def action_1_def)
qed

text \<open>
  The claim as stated fails: approving an action whose target incident is not in the
  graph (so it carries no \<open>target_location\<close>) dispatches an available resource without a
  destination.
\<close>

theorem approve_action_breaks_invariant:
  "resources_ok manager_ghost
   \<and> map_of (resources (graph (run_mutations [(1, Approve_action ''action_2'' ''operator'')]
        manager_ghost))) ''AMB-7'' =
       Some (amb7\<lparr>res_status := ''dispatched'', assigned_incident := Some ''inc_ghost'',
                  eta_minutes := Some 8, res_updated_at := 1\<rparr>)
   \<and> destination (amb7\<lparr>res_status := ''dispatched'', assigned_incident := Some ''inc_ghost'',
                  eta_minutes := Some 8, res_updated_at := 1\<rparr>) = None
   \<and> \<not> resource_invariant (amb7\<lparr>res_status := ''dispatched'',
                  assigned_incident := Some ''inc_ghost'', eta_minutes := Some 8,
                  res_updated_at := 1\<rparr>)"
  by (simp add: resources_ok_def resource_invariant_def approve_action_def dispatch_resource_def
      dispatch_fields_def log_event_def Let_def truthy_key_def manager_ghost_def manager_of_def
      action_ghost_def action_1_def amb7_def)

section \<open>Reflective updates\<close>

lemma apply_updates_fields:
  assumes "distinct (map fst updates)"
    and "\<forall>key \<in> fst ` set updates. key \<in> class_attributes cls \<longrightarrow> map_of obj key \<noteq> None"
  shows "\<exists>obj'. apply_updates cls obj updates = (None, obj')
           \<and> map fst obj' = map fst obj
           \<and> (\<forall>k. map_of obj' k =
                 (if map_of obj k \<noteq> None
                  then (case map_of updates k of Some v \<Rightarrow> Some v | None \<Rightarrow> map_of obj k)
                  else None))"
  using assms
proof (induction updates arbitrary: obj)
  case Nil
  then show ?case by auto
next
  case (Cons u updates)
  obtain key v where u: "u = (key, v)" by (cases u)
  have d: "distinct (map fst updates)" and fresh: "map_of updates key = None"
    using Cons.prems(1) by (auto simp: u map_of_eq_None_iff)
  show ?case
  proof (cases "map_of obj key")
    case None
    then have step: "apply_updates cls obj (u # updates) = apply_updates cls obj updates"
      using Cons.prems(2) by (auto simp: hasattr_def u)
    have "\<forall>key \<in> fst ` set updates. key \<in> class_attributes cls \<longrightarrow> map_of obj key \<noteq> None"
      using Cons.prems(2) by (simp add: u)
    from Cons.IH [OF d this] obtain obj' where
      o: "apply_updates cls obj updates = (None, obj')" "map fst obj' = map fst obj"
      "\<forall>k. map_of obj' k =
                 (if map_of obj k \<noteq> None
                  then (case map_of updates k of Some v \<Rightarrow> Some v | None \<Rightarrow> map_of obj k)
                  else None)"
      by blast
    have "map_of obj' k =
            (if map_of obj k \<noteq> None
             then (case map_of (u # updates) k of Some v \<Rightarrow> Some v | None \<Rightarrow> map_of obj k)
             else None)" for k
    proof (cases "k = key")
      case True
      then show ?thesis using o(3) None by simp
    next
      case False
      then show ?thesis using o(3) by (simp add: u)
    qed
    then show ?thesis
      using o(1,2) step by simp
  next
    case (Some old)
    let ?obj = "AList.update key v obj"
    have "key \<in> fst ` set obj"
      using Some by (force dest: map_of_SomeD)
    then have keys: "map fst ?obj = map fst obj"
      by (simp add: update_keys)
    have step: "apply_updates cls obj (u # updates) = apply_updates cls ?obj updates"
      using Some by (simp add: u hasattr_def setattr_def)
    have "\<forall>key \<in> fst ` set updates. key \<in> class_attributes cls \<longrightarrow> map_of ?obj key \<noteq> None"
      using Cons.prems(2) by (simp add: u update_conv')
    from Cons.IH [OF d this] obtain obj' where
      o: "apply_updates cls ?obj updates = (None, obj')" "map fst obj' = map fst ?obj"
      "\<forall>k. map_of obj' k =
                 (if map_of ?obj k \<noteq> None
                  then (case map_of updates k of Some v \<Rightarrow> Some v | None \<Rightarrow> map_of ?obj k)
                  else None)"
      by blast
    have "map_of obj' k =
            (if map_of obj k \<noteq> None
             then (case map_of (u # updates) k of Some v \<Rightarrow> Some v | None \<Rightarrow> map_of obj k)
             else None)" for k
      using o(3) Some fresh by (auto simp: u update_conv' split: option.splits)
    then show ?thesis
      using o(1,2) step keys by simp
  qed
qed

lemma stamp_field:
  assumes "map_of obj ''updated_at'' \<noteq> None"
  shows "setattr cls obj ''updated_at'' v = Inr (AList.update ''updated_at'' v obj)"
    and "map fst (AList.update ''updated_at'' v obj) = map fst obj"
proof -
  show "setattr cls obj ''updated_at'' v = Inr (AList.update ''updated_at'' v obj)"
    using assms by (simp add: setattr_def)
  have "''updated_at'' \<in> fst ` set obj"
    using assms by (force dest: map_of_SomeD)
  then show "map fst (AList.update ''updated_at'' v obj) = map fst obj"
    by (simp add: update_keys)
qed

text \<open>When the call raises, only the node itself may have changed, and nothing is stamped or logged.\<close>

lemma update_incident_raises:
  "update_incident cls now nid updates m = (Inl e, m') \<Longrightarrow>
   (\<exists>obj'. incidents (graph m') = AList.update nid obj' (incidents (graph m)))
   \<and> resources (graph m') = resources (graph m)
   \<and> contradictions (graph m') = contradictions (graph m)
   \<and> pending_actions (graph m') = pending_actions (graph m)
   \<and> last_updated (graph m') = last_updated (graph m)
   \<and> audit_log m' = audit_log m"
  by (auto simp: update_incident_def split: option.splits prod.splits sum.splits)

lemma update_resource_raises:
  "update_resource cls now nid updates m = (Inl e, m') \<Longrightarrow>
   (\<exists>obj'. resources (graph m') = AList.update nid obj' (resources (graph m)))
   \<and> incidents (graph m') = incidents (graph m)
   \<and> contradictions (graph m') = contradictions (graph m)
   \<and> pending_actions (graph m') = pending_actions (graph m)
   \<and> last_updated (graph m') = last_updated (graph m)
   \<and> audit_log m' = audit_log m"
  by (auto simp: update_resource_def split: option.splits prod.splits sum.splits)

text \<open>
  C10 (as amended).  For an id that is not in the graph, \<open>update_incident\<close> (resp.
  \<open>update_resource\<close>) returns null and changes nothing.  For an existing incident (resp.
  resource) and an updates dictionary none of whose keys names an attribute of the class
  that is not a field of the node, the call returns the stored node, and: the node has the
  fields it had; a field other than \<open>updated_at\<close> holds the value the dictionary gives it
  when the dictionary names it, and its old value otherwise; a key that names no attribute
  adds none; \<open>updated_at\<close> of the node and \<open>last_updated\<close> of the graph are the clock;
  every other node and every other dictionary of the graph is unchanged (and
  \<open>update_resource\<close> writes nothing to the audit log).
\<close>

theorem update_node_frame:
  fixes m :: "(pyobject, pyobject) SituationGraphManager"
  assumes "distinct (map fst updates)"
  shows "(map_of (incidents (graph m)) nid = None
            \<longrightarrow> update_incident cls now nid updates m = (Inr None, m))
     \<and> (map_of (resources (graph m)) nid = None
            \<longrightarrow> update_resource cls now nid updates m = (Inr None, m))
     \<and> (\<forall>obj. map_of (incidents (graph m)) nid = Some obj \<and> map_of obj ''updated_at'' \<noteq> None \<and>
            (\<forall>key \<in> fst ` set updates. key \<in> class_attributes cls \<longrightarrow> map_of obj key \<noteq> None) \<longrightarrow>
          (\<exists>obj' m'. update_incident cls now nid updates m = (Inr (Some obj'), m')
              \<and> incidents (graph m') = AList.update nid obj' (incidents (graph m))
              \<and> (\<forall>key. key \<noteq> ''updated_at'' \<longrightarrow>
                    map_of obj' key =
                      (if map_of obj key \<noteq> None
                       then (case map_of updates key of Some v \<Rightarrow> Some v | None \<Rightarrow> map_of obj key)
                       else None))
              \<and> map_of obj' ''updated_at'' = Some (PDatetime now)
              \<and> map fst obj' = map fst obj
              \<and> resources (graph m') = resources (graph m)
              \<and> contradictions (graph m') = contradictions (graph m)
              \<and> pending_actions (graph m') = pending_actions (graph m)
              \<and> last_updated (graph m') = now))
     \<and> (\<forall>obj. map_of (resources (graph m)) nid = Some obj \<and> map_of obj ''updated_at'' \<noteq> None \<and>
            (\<forall>key \<in> fst ` set updates. key \<in> class_attributes cls \<longrightarrow> map_of obj key \<noteq> None) \<longrightarrow>
          (\<exists>obj' m'. update_resource cls now nid updates m = (Inr (Some obj'), m')
              \<and> resources (graph m') = AList.update nid obj' (resources (graph m))
              \<and> (\<forall>key. key \<noteq> ''updated_at'' \<longrightarrow>
                    map_of obj' key =
                      (if map_of obj key \<noteq> None
                       then (case map_of updates key of Some v \<Rightarrow> Some v | None \<Rightarrow> map_of obj key)
                       else None))
              \<and> map_of obj' ''updated_at'' = Some (PDatetime now)
              \<and> map fst obj' = map fst obj
              \<and> incidents (graph m') = incidents (graph m)
              \<and> contradictions (graph m') = contradictions (graph m)
              \<and> pending_actions (graph m') = pending_actions (graph m)
              \<and> last_updated (graph m') = now
              \<and> audit_log m' = audit_log m))"
proof -
  have ok: "\<exists>obj'. apply_updates cls obj updates = (None, obj')
              \<and> setattr cls obj' ''updated_at'' (PDatetime now) =
                  Inr (AList.update ''updated_at'' (PDatetime now) obj')
              \<and> map fst (AList.update ''updated_at'' (PDatetime now) obj') = map fst obj
              \<and> (\<forall>key. map_of (AList.update ''updated_at'' (PDatetime now) obj') key =
                    (if key = ''updated_at'' then Some (PDatetime now)
                     else if map_of obj key \<noteq> None
                          then (case map_of updates key of Some v \<Rightarrow> Some v | None \<Rightarrow> map_of obj key)
                          else None))"
    if f: "map_of obj ''updated_at'' \<noteq> None"
      and c: "\<forall>key \<in> fst ` set updates. key \<in> class_attributes cls \<longrightarrow> map_of obj key \<noteq> None"
    for obj
  proof -
    from apply_updates_fields [OF assms c] obtain obj' where
      o: "apply_updates cls obj updates = (None, obj')" "map fst obj' = map fst obj"
      "\<forall>k. map_of obj' k =
             (if map_of obj k \<noteq> None
              then (case map_of updates k of Some v \<Rightarrow> Some v | None \<Rightarrow> map_of obj k)
              else None)"
      by blast
    have "map_of obj' ''updated_at'' \<noteq> None"
      using o(3) f by (auto split: option.splits)
    then have "setattr cls obj' ''updated_at'' (PDatetime now) =
                 Inr (AList.update ''updated_at'' (PDatetime now) obj')"
      and "map fst (AList.update ''updated_at'' (PDatetime now) obj') = map fst obj'"
      by (rule stamp_field)+
    with o show ?thesis
      by (auto simp: update_conv')
  qed
  have inc: "\<exists>obj' m'. update_incident cls now nid updates m = (Inr (Some obj'), m')
              \<and> incidents (graph m') = AList.update nid obj' (incidents (graph m))
              \<and> (\<forall>key. key \<noteq> ''updated_at'' \<longrightarrow>
                    map_of obj' key =
                      (if map_of obj key \<noteq> None
                       then (case map_of updates key of Some v \<Rightarrow> Some v | None \<Rightarrow> map_of obj key)
                       else None))
              \<and> map_of obj' ''updated_at'' = Some (PDatetime now)
              \<and> map fst obj' = map fst obj
              \<and> resources (graph m') = resources (graph m)
              \<and> contradictions (graph m') = contradictions (graph m)
              \<and> pending_actions (graph m') = pending_actions (graph m)
              \<and> last_updated (graph m') = now"
    if "map_of (incidents (graph m)) nid = Some obj" "map_of obj ''updated_at'' \<noteq> None"
      "\<forall>key \<in> fst ` set updates. key \<in> class_attributes cls \<longrightarrow> map_of obj key \<noteq> None"
    for obj
    using ok [OF that(2,3)] that(1)
    by (auto simp: update_incident_def log_event_def)
  have res: "\<exists>obj' m'. update_resource cls now nid updates m = (Inr (Some obj'), m')
              \<and> resources (graph m') = AList.update nid obj' (resources (graph m))
              \<and> (\<forall>key. key \<noteq> ''updated_at'' \<longrightarrow>
                    map_of obj' key =
                      (if map_of obj key \<noteq> None
                       then (case map_of updates key of Some v \<Rightarrow> Some v | None \<Rightarrow> map_of obj key)
                       else None))
              \<and> map_of obj' ''updated_at'' = Some (PDatetime now)
              \<and> map fst obj' = map fst obj
              \<and> incidents (graph m') = incidents (graph m)
              \<and> contradictions (graph m') = contradictions (graph m)
              \<and> pending_actions (graph m') = pending_actions (graph m)
              \<and> last_updated (graph m') = now
              \<and> audit_log m' = audit_log m"
    if "map_of (resources (graph m)) nid = Some obj" "map_of obj ''updated_at'' \<noteq> None"
      "\<forall>key \<in> fst ` set updates. key \<in> class_attributes cls \<longrightarrow> map_of obj key \<noteq> None"
    for obj
    using ok [OF that(2,3)] that(1)
    by (auto simp: update_resource_def)
  show ?thesis
  proof (intro conjI)
    show "map_of (incidents (graph m)) nid = None
            \<longrightarrow> update_incident cls now nid updates m = (Inr None, m)"
      by (simp add: update_incident_def)
    show "map_of (resources (graph m)) nid = None
            \<longrightarrow> update_resource cls now nid updates m = (Inr None, m)"
      by (simp add: update_resource_def)
  qed (intro allI impI, elim conjE, rule inc, assumption+,
       intro allI impI, elim conjE, rule res, assumption+)
qed

theorem update_node_frame_witness:
  "distinct (map fst [(''status'', PStr ''contained''), (''severity'', PStr ''high'')])
   \<and> map_of (incidents (graph object_manager)) ''AMB-99'' = None
   \<and> map_of (resources (graph object_manager)) ''AMB-99'' = None
   \<and> update_incident pydantic_methods 7 ''AMB-99''
         [(''status'', PStr ''contained''), (''severity'', PStr ''high'')] object_manager =
       (Inr None, object_manager)
   \<and> update_resource pydantic_methods 7 ''AMB-99''
         [(''status'', PStr ''contained''), (''severity'', PStr ''high'')] object_manager =
       (Inr None, object_manager)
   \<and> map_of (incidents (graph object_manager)) ''inc_a'' = Some (IncidentNode_object incident_a)
   \<and> (\<exists>obj' m'. update_incident pydantic_methods 7 ''inc_a''
                    [(''status'', PStr ''contained''), (''severity'', PStr ''high'')] object_manager =
                  (Inr (Some obj'), m')
          \<and> map_of obj' ''status'' = Some (PStr ''contained'')
          \<and> map_of obj' ''severity'' = None
          \<and> map_of obj' ''urgency'' = Some (PStr ''critical'')
          \<and> map_of obj' ''updated_at'' = Some (PDatetime 7)
          \<and> last_updated (graph m') = 7)
   \<and> map_of (resources (graph object_manager)) ''AMB-7'' = Some (ResourceNode_object amb7)
   \<and> (\<exists>obj' m'. update_resource pydantic_methods 7 ''AMB-7''
                    [(''status'', PStr ''contained''), (''severity'', PStr ''high'')] object_manager =
                  (Inr (Some obj'), m')
          \<and> map_of obj' ''status'' = Some (PStr ''contained'')
          \<and> map_of obj' ''severity'' = None
          \<and> map_of obj' ''unit_id'' = Some (PStr ''AMB-7'')
          \<and> map_of obj' ''updated_at'' = Some (PDatetime 7)
          \<and> last_updated (graph m') = 7
          \<and> audit_log m' = [])"
proof -
  let ?ups = "[(''status'', PStr ''contained''), (''severity'', PStr ''high'')]"
  let ?inc = "IncidentNode_object incident_a"
  let ?res = "ResourceNode_object amb7"
  have d: "distinct (map fst ?ups)"
    by simp
  have n: "map_of (incidents (graph object_manager)) ''AMB-99'' = None"
    "map_of (resources (graph object_manager)) ''AMB-99'' = None"
    by (simp_all add: object_manager_def)
  have i: "map_of (incidents (graph object_manager)) ''inc_a'' = Some ?inc
             \<and> map_of ?inc ''updated_at'' \<noteq> None
             \<and> (\<forall>key \<in> fst ` set ?ups.
                    key \<in> class_attributes pydantic_methods \<longrightarrow> map_of ?inc key \<noteq> None)"
    by (simp add: object_manager_def IncidentNode_object_def pydantic_methods_def)
  have r: "map_of (resources (graph object_manager)) ''AMB-7'' = Some ?res
             \<and> map_of ?res ''updated_at'' \<noteq> None
             \<and> (\<forall>key \<in> fst ` set ?ups.
                    key \<in> class_attributes pydantic_methods \<longrightarrow> map_of ?res key \<noteq> None)"
    by (simp add: object_manager_def ResourceNode_object_def pydantic_methods_def)
  note absent = update_node_frame [OF d, where cls = pydantic_methods and m = object_manager
      and nid = "''AMB-99''" and now = 7]
  note inc = update_node_frame [OF d, where cls = pydantic_methods and m = object_manager
      and nid = "''inc_a''" and now = 7]
  note res = update_node_frame [OF d, where cls = pydantic_methods and m = object_manager
      and nid = "''AMB-7''" and now = 7]
  have a1: "update_incident pydantic_methods 7 ''AMB-99'' ?ups object_manager =
              (Inr None, object_manager)"
    by (rule absent [THEN conjunct1, rule_format, OF n(1)])
  have a2: "update_resource pydantic_methods 7 ''AMB-99'' ?ups object_manager =
              (Inr None, object_manager)"
    by (rule absent [THEN conjunct2, THEN conjunct1, rule_format, OF n(2)])
  from inc [THEN conjunct2, THEN conjunct2, THEN conjunct1, rule_format, OF i]
  obtain io im where
    io: "update_incident pydantic_methods 7 ''inc_a'' ?ups object_manager = (Inr (Some io), im)"
      "\<forall>key. key \<noteq> ''updated_at'' \<longrightarrow>
         map_of io key =
           (if map_of ?inc key \<noteq> None
            then (case map_of ?ups key of Some v \<Rightarrow> Some v | None \<Rightarrow> map_of ?inc key)
            else None)"
      "map_of io ''updated_at'' = Some (PDatetime 7)"
      "last_updated (graph im) = 7"
    by (elim exE conjE)
  from res [THEN conjunct2, THEN conjunct2, THEN conjunct2, rule_format, OF r]
  obtain ro rm where
    ro: "update_resource pydantic_methods 7 ''AMB-7'' ?ups object_manager = (Inr (Some ro), rm)"
      "\<forall>key. key \<noteq> ''updated_at'' \<longrightarrow>
         map_of ro key =
           (if map_of ?res key \<noteq> None
            then (case map_of ?ups key of Some v \<Rightarrow> Some v | None \<Rightarrow> map_of ?res key)
            else None)"
      "map_of ro ''updated_at'' = Some (PDatetime 7)"
      "last_updated (graph rm) = 7"
      "audit_log rm = audit_log object_manager"
    by (elim exE conjE)
  have iv: "map_of io ''status'' = Some (PStr ''contained'')" "map_of io ''severity'' = None"
    "map_of io ''urgency'' = Some (PStr ''critical'')"
    using io(2) [rule_format, of "''status''"] io(2) [rule_format, of "''severity''"]
      io(2) [rule_format, of "''urgency''"]
    by (simp_all add: IncidentNode_object_def incident_a_def)
  have rv: "map_of ro ''status'' = Some (PStr ''contained'')" "map_of ro ''severity'' = None"
    "map_of ro ''unit_id'' = Some (PStr ''AMB-7'')"
    using ro(2) [rule_format, of "''status''"] ro(2) [rule_format, of "''severity''"]
      ro(2) [rule_format, of "''unit_id''"]
    by (simp_all add: ResourceNode_object_def amb7_def)
  have "audit_log rm = []"
    using ro(5) by (simp add: object_manager_def)
  with d n a1 a2 i r io(1,3,4) ro(1,3,4) iv rv show ?thesis
    by (intro conjI exI [of _ io] exI [of _ im] exI [of _ ro] exI [of _ rm]) (simp_all only:)
qed

text \<open>
  The claim as written fails for a key that names a method of the pydantic base class.
  \<open>hasattr\<close> holds for \<open>model_dump\<close>, the assignment is refused, and \<open>update_resource\<close>
  raises instead of returning the node: the entry before that key is applied, and neither
  \<open>updated_at\<close> nor \<open>last_updated\<close> is written.
\<close>

theorem update_resource_method_key_raises:
  "map_of (resources (graph object_manager)) ''AMB-7'' = Some (ResourceNode_object amb7)
   \<and> hasattr pydantic_methods (ResourceNode_object amb7) ''model_dump''
   \<and> map_of (ResourceNode_object amb7) ''model_dump'' = None
   \<and> update_resource pydantic_methods 7 ''AMB-7''
         [(''status'', PStr ''offline''), (''model_dump'', PStr ''x'')] object_manager =
       (Inl ValueError,
        object_manager\<lparr>graph := (graph object_manager)\<lparr>resources :=
          [(''AMB-7'', ResourceNode_object (amb7\<lparr>res_status := ''offline''\<rparr>))]\<rparr>\<rparr>)
   \<and> res_updated_at (amb7\<lparr>res_status := ''offline''\<rparr>) = 0
   \<and> last_updated (graph object_manager) = 0"
  by (simp add: update_resource_def object_manager_def ResourceNode_object_def hasattr_def
      setattr_def pydantic_methods_def amb7_def)

section \<open>The planning trigger\<close>

lemma total_seconds_mono: "a \<le> b \<Longrightarrow> total_seconds a \<le> total_seconds b"
  by (simp add: total_seconds_def divide_right_mono)

lemma start_cases:
  "maybe_generate_recommendations_start now stamp c = (c, None) \<or>
   (\<exists>call. maybe_generate_recommendations_start now stamp c =
             (c\<lparr>last_planning_call := Some stamp\<rparr>, Some call))"
  by (simp add: maybe_generate_recommendations_start_def Let_def)

lemma start_invoked:
  assumes "maybe_generate_recommendations_start now stamp c = (c', Some call)"
  shows "c' = c\<lparr>last_planning_call := Some stamp\<rparr>"
    and "\<exists>i \<in> set (map snd (incidents (graph (graph_manager c)))).
           inc_urgency i \<in> {CRITICAL, HIGH} \<and> inc_status i = ''active'' \<and> assigned_resources i = []"
    and "\<exists>r \<in> set (map snd (resources (graph (graph_manager c)))). res_status r = ''available''"
    and "length (filter (\<lambda>a. act_status a = ''pending'')
                  (map snd (pending_actions (graph (graph_manager c))))) < 3"
    and "\<And>prev. last_planning_call c = Some prev
           \<Longrightarrow> real_of_int (planning_cooldown_seconds c) \<le> total_seconds (now - prev)"
proof -
  let ?crit = "filter (\<lambda>i. inc_urgency i \<in> {CRITICAL, HIGH} \<and> inc_status i = ''active'' \<and>
                           length (assigned_resources i) = 0)
                 (map snd (incidents (graph (graph_manager c))))"
  let ?avail = "filter (\<lambda>r. res_status r = ''available'')
                 (map snd (resources (graph (graph_manager c))))"
  have all: "\<not> (case last_planning_call c of None \<Rightarrow> False
                | Some prev \<Rightarrow> total_seconds (now - prev) < real_of_int (planning_cooldown_seconds c))
             \<and> ?crit \<noteq> []
             \<and> \<not> 3 \<le> length (filter (\<lambda>a. act_status a = ''pending'')
                          (map snd (pending_actions (graph (graph_manager c)))))
             \<and> ?avail \<noteq> []
             \<and> c' = c\<lparr>last_planning_call := Some stamp\<rparr>"
    using assms
    by (simp add: maybe_generate_recommendations_start_def get_available_resources_def Let_def
        split: if_splits)
  show "c' = c\<lparr>last_planning_call := Some stamp\<rparr>"
    using all by simp
  from all have "?crit \<noteq> []" by simp
  then show "\<exists>i \<in> set (map snd (incidents (graph (graph_manager c)))).
           inc_urgency i \<in> {CRITICAL, HIGH} \<and> inc_status i = ''active'' \<and> assigned_resources i = []"
    by (auto simp: filter_empty_conv)
  from all have "?avail \<noteq> []" by simp
  then show "\<exists>r \<in> set (map snd (resources (graph (graph_manager c)))). res_status r = ''available''"
    by (auto simp: filter_empty_conv)
  show "length (filter (\<lambda>a. act_status a = ''pending'')
                  (map snd (pending_actions (graph (graph_manager c))))) < 3"
    using all by simp
  show "real_of_int (planning_cooldown_seconds c) \<le> total_seconds (now - prev)"
    if "last_planning_call c = Some prev" for prev
    using all that by simp
qed

lemma run_triggers_spaced:
  assumes "clock_monotone t run"
    and "\<And>prev. last_planning_call c = Some prev \<Longrightarrow> prev \<le> t"
  shows "spaced (real_of_int (planning_cooldown_seconds c)) (run_triggers run c)
       \<and> (\<forall>y \<in> set (run_triggers run c). t \<le> y \<and>
            (\<forall>prev. last_planning_call c = Some prev
               \<longrightarrow> real_of_int (planning_cooldown_seconds c) \<le> total_seconds (y - prev)))"
  using assms
proof (induction run arbitrary: t c)
  case Nil
  then show ?case by simp
next
  case (Cons e run)
  obtain now stamp gm where e: "e = (now, stamp, gm)" by (cases e)
  let ?c = "c\<lparr>graph_manager := gm\<rparr>"
  have clk: "t \<le> now" "now \<le> stamp" "clock_monotone stamp run"
    using Cons.prems(1) by (simp_all add: e)
  consider (skip) "maybe_generate_recommendations_start now stamp ?c = (?c, None)"
    | (call) call where "maybe_generate_recommendations_start now stamp ?c =
                           (?c\<lparr>last_planning_call := Some stamp\<rparr>, Some call)"
    using start_cases [of now stamp ?c] by blast
  then show ?case
  proof cases
    case skip
    have "\<And>prev. last_planning_call ?c = Some prev \<Longrightarrow> prev \<le> stamp"
      using Cons.prems(2) clk by fastforce
    then have ih: "spaced (real_of_int (planning_cooldown_seconds c)) (run_triggers run ?c)"
      "\<And>y. y \<in> set (run_triggers run ?c) \<Longrightarrow>
          stamp \<le> y \<and> (\<forall>prev. last_planning_call c = Some prev
               \<longrightarrow> real_of_int (planning_cooldown_seconds c) \<le> total_seconds (y - prev))"
      using Cons.IH [of stamp ?c, OF clk(3)] by simp_all
    have "t \<le> y" if "y \<in> set (run_triggers run ?c)" for y
      using ih(2) [OF that] clk by linarith
    then show ?thesis
      using ih by (auto simp: e skip)
  next
    case call
    let ?c' = "?c\<lparr>last_planning_call := Some stamp\<rparr>"
    have ih: "spaced (real_of_int (planning_cooldown_seconds c)) (run_triggers run ?c')"
      "\<And>y. y \<in> set (run_triggers run ?c') \<Longrightarrow>
          stamp \<le> y \<and> real_of_int (planning_cooldown_seconds c) \<le> total_seconds (y - stamp)"
      using Cons.IH [of stamp ?c', OF clk(3)] by simp_all
    have head: "real_of_int (planning_cooldown_seconds c) \<le> total_seconds (y - prev)"
      if "last_planning_call c = Some prev" "stamp \<le> y" for prev y
    proof -
      have "real_of_int (planning_cooldown_seconds c) \<le> total_seconds (now - prev)"
        using start_invoked(5) [OF call, of prev] that(1) by simp
      also have "\<dots> \<le> total_seconds (y - prev)"
        using clk(2) that(2) by (intro total_seconds_mono) simp
      finally show ?thesis .
    qed
    have "t \<le> y" if "y \<in> set (run_triggers run ?c')" for y
      using ih(2) [OF that] clk by linarith
    moreover have "t \<le> stamp"
      using clk by linarith
    ultimately show ?thesis
      using ih head by (auto simp: e call)
  qed
qed

lemma spaced_window:
  assumes "spaced cd xs" and "total_seconds d < cd"
  shows "length (filter (\<lambda>s. w \<le> s \<and> s < w + d) xs) \<le> 1"
  using assms(1)
proof (induction xs)
  case Nil
  then show ?case by simp
next
  case (Cons x xs)
  show ?case
  proof (cases "w \<le> x \<and> x < w + d")
    case True
    have "\<not> (w \<le> y \<and> y < w + d)" if "y \<in> set xs" for y
    proof -
      have "total_seconds d < total_seconds (y - x)"
        using Cons.prems that assms(2) by fastforce
      then have "d < y - x"
        by (simp add: total_seconds_def divide_less_cancel)
      then show ?thesis using True by simp
    qed
    then have "filter (\<lambda>s. w \<le> s \<and> s < w + d) xs = []"
      by (simp add: filter_empty_conv)
    then show ?thesis using True by simp
  next
    case False
    then show ?thesis using Cons by auto
  qed
qed

text \<open>
  C4.  The Planning analyzer is called only when all gates hold: an active incident of
  urgency critical or high without assigned resources, an available resource, fewer
  than three pending actions, and no earlier stamp less than
  \<open>planning_cooldown_seconds\<close> before the call; the coordinator that the analyzer call
  finds already carries the new stamp.  Hence, for a clock that does not run backwards,
  no window shorter than \<open>planning_cooldown_seconds\<close> holds two calls of the analyzer
  (a call counted at its stamp), whatever happens to the graph between the triggers.
\<close>

theorem planning_gates_and_cooldown:
  "(\<forall>c' call. maybe_generate_recommendations_start now stamp c = (c', Some call) \<longrightarrow>
       (\<exists>i \<in> set (map snd (incidents (graph (graph_manager c)))).
           inc_urgency i \<in> {CRITICAL, HIGH} \<and> inc_status i = ''active'' \<and> assigned_resources i = [])
     \<and> (\<exists>r \<in> set (map snd (resources (graph (graph_manager c)))). res_status r = ''available'')
     \<and> length (filter (\<lambda>a. act_status a = ''pending'')
                 (map snd (pending_actions (graph (graph_manager c))))) < 3
     \<and> (\<forall>prev. last_planning_call c = Some prev
           \<longrightarrow> real_of_int (planning_cooldown_seconds c) \<le> total_seconds (now - prev))
     \<and> c' = c\<lparr>last_planning_call := Some stamp\<rparr>)
   \<and> (clock_monotone t run \<and> (\<forall>prev. last_planning_call c = Some prev \<longrightarrow> prev \<le> t) \<and>
      total_seconds d < real_of_int (planning_cooldown_seconds c)
      \<longrightarrow> length (filter (\<lambda>s. w \<le> s \<and> s < w + d) (run_triggers run c)) \<le> 1)"
proof (intro conjI allI impI)
  fix c' call
  assume a: "maybe_generate_recommendations_start now stamp c = (c', Some call)"
  show "\<exists>i \<in> set (map snd (incidents (graph (graph_manager c)))).
           inc_urgency i \<in> {CRITICAL, HIGH} \<and> inc_status i = ''active'' \<and> assigned_resources i = []"
    by (rule start_invoked(2) [OF a])
  show "\<exists>r \<in> set (map snd (resources (graph (graph_manager c)))). res_status r = ''available''"
    by (rule start_invoked(3) [OF a])
  show "length (filter (\<lambda>a. act_status a = ''pending'')
                 (map snd (pending_actions (graph (graph_manager c))))) < 3"
    by (rule start_invoked(4) [OF a])
  show "c' = c\<lparr>last_planning_call := Some stamp\<rparr>"
    by (rule start_invoked(1) [OF a])
  show "real_of_int (planning_cooldown_seconds c) \<le> total_seconds (now - prev)"
    if "last_planning_call c = Some prev" for prev
    by (rule start_invoked(5) [OF a that])
next
  assume a: "clock_monotone t run \<and> (\<forall>prev. last_planning_call c = Some prev \<longrightarrow> prev \<le> t) \<and>
      total_seconds d < real_of_int (planning_cooldown_seconds c)"
  then have "spaced (real_of_int (planning_cooldown_seconds c)) (run_triggers run c)"
    using run_triggers_spaced [of t run c] by blast
  from spaced_window [OF this, of d w] a
  show "length (filter (\<lambda>s. w \<le> s \<and> s < w + d) (run_triggers run c)) \<le> 1"
    by blast
qed

theorem planning_gates_and_cooldown_witness:
  "clock_monotone 0 burst
   \<and> last_planning_call trigger_coordinator = None
   \<and> total_seconds 19999999 < real_of_int (planning_cooldown_seconds trigger_coordinator)
   \<and> maybe_generate_recommendations_start 0 1 trigger_coordinator =
       (trigger_coordinator\<lparr>last_planning_call := Some 1\<rparr>,
        Some \<lparr>pc_incidents = [incident_a], pc_resources = [amb7, amb12]\<rparr>)
   \<and> run_triggers burst trigger_coordinator = [1, 21000001]
   \<and> length (filter (\<lambda>s. 0 \<le> s \<and> s < 0 + 19999999) (run_triggers burst trigger_coordinator)) \<le> 1"
proof -
  have a: "clock_monotone 0 burst"
    by (simp add: burst_def)
  have b: "last_planning_call trigger_coordinator = None"
    "planning_cooldown_seconds trigger_coordinator = 20"
    by (simp_all add: trigger_coordinator_def Coordinator_init_def)
  have c: "total_seconds 19999999 < real_of_int (planning_cooldown_seconds trigger_coordinator)"
    by (simp add: b total_seconds_def)
  have d: "maybe_generate_recommendations_start 0 1 trigger_coordinator =
       (trigger_coordinator\<lparr>last_planning_call := Some 1\<rparr>,
        Some \<lparr>pc_incidents = [incident_a], pc_resources = [amb7, amb12]\<rparr>)"
    by (simp add: maybe_generate_recommendations_start_def Let_def get_available_resources_def
        trigger_coordinator_def Coordinator_init_def manager_plain_def manager_of_def amb7_def
        amb12_def incident_a_def action_1_def)
  have e: "run_triggers burst trigger_coordinator = [1, 21000001]"
    by (simp add: burst_def maybe_generate_recommendations_start_def Let_def
        get_available_resources_def trigger_coordinator_def Coordinator_init_def total_seconds_def
        manager_plain_def manager_of_def amb7_def amb12_def incident_a_def action_1_def)
  from planning_gates_and_cooldown [of 0 1 trigger_coordinator 0 burst 19999999 0] a b c d e
  show ?thesis by simp
qed

section \<open>Injected contradictions\<close>

lemma entity_id_of_bridge: "entity_id_of ''Main Street Bridge'' = ''main_street_bridge''"
  by code_simp

lemma ensure_claim_list_present:
  "map_of (signal_claims (ensure_claim_list ename c)) ename \<noteq> None"
  by (simp add: ensure_claim_list_def update_conv')

lemma append_claim_signal_claims: "signal_claims (append_claim ename claim c) = signal_claims c"
  by (simp add: append_claim_def split: option.splits)

lemma claims_of_append_claim:
  "map_of (signal_claims c) ename \<noteq> None \<Longrightarrow>
   claims_of ename (append_claim ename claim c) = claims_of ename c @ [claim]"
  by (auto simp: claims_of_def append_claim_def)

lemma foldl_append_claim:
  "map_of (signal_claims c) ename \<noteq> None \<Longrightarrow>
   signal_claims (foldl (\<lambda>c' claim. append_claim ename (f claim) c') c claims) = signal_claims c
   \<and> claims_of ename (foldl (\<lambda>c' claim. append_claim ename (f claim) c') c claims) =
       claims_of ename c @ map f claims
   \<and> graph_manager (foldl (\<lambda>c' claim. append_claim ename (f claim) c') c claims) = graph_manager c
   \<and> handled_contradictions (foldl (\<lambda>c' claim. append_claim ename (f claim) c') c claims) =
       handled_contradictions c"
proof (induction claims arbitrary: c)
  case Nil
  then show ?case by simp
next
  case (Cons claim claims)
  have p: "map_of (signal_claims (append_claim ename (f claim) c)) ename \<noteq> None"
    using Cons.prems by (simp add: append_claim_signal_claims)
  have g: "graph_manager (append_claim ename (f claim) c) = graph_manager c"
    "handled_contradictions (append_claim ename (f claim) c) = handled_contradictions c"
    by (simp_all add: append_claim_def split: option.splits)
  show ?case
    using Cons.IH [OF p] Cons.prems
    by (simp add: append_claim_signal_claims claims_of_append_claim g)
qed

text \<open>
  What the injection does whenever the event carries two claims or more and the call
  of the analyzer returns: one alert is stored under the new id, with severity \<open>high\<close>,
  the entity id derived from the name, and the verdict of the analyzer when it gives
  one (the forced verdict, or \<open>CONTRADICTION\<close>, otherwise); the entity is handled and
  its claim list is deleted.
\<close>

lemma inject_contradiction_effect:
  assumes "ie_claims data = Some claims" and "2 \<le> length claims"
  shows "\<exists>alert.
           contradictions (graph (graph_manager
               (inject_contradiction uid now (Inr ver_data) data sim_time c))) =
             AList.update (''alert_'' @ uid) alert (contradictions (graph (graph_manager c)))
         \<and> severity alert = ''high''
         \<and> entity_name alert = get_default (ie_entity data) ''Unknown''
         \<and> entity_id alert = entity_id_of (get_default (ie_entity data) ''Unknown'')
         \<and> \<not> resolved alert
         \<and> alert_verdict alert =
             verdict_map_get (get_default (vd_verdict ver_data)
                                (get_default (ie_force_verdict data) ''CONTRADICTION''))
               CONTRADICTION
         \<and> handled_contradictions (inject_contradiction uid now (Inr ver_data) data sim_time c) =
             insert (get_default (ie_entity data) ''Unknown'') (handled_contradictions c)
         \<and> map_of (signal_claims (inject_contradiction uid now (Inr ver_data) data sim_time c))
             (get_default (ie_entity data) ''Unknown'') = None"
proof -
  let ?e = "get_default (ie_entity data) ''Unknown''"
  let ?f = "\<lambda>claim. AList.update ''timestamp'' (PStr (strftime_HM sim_time)) claim"
  let ?c1 = "foldl (\<lambda>c' claim. append_claim ?e (?f claim) c') (ensure_claim_list ?e c) claims"
  have f: "signal_claims ?c1 = signal_claims (ensure_claim_list ?e c)"
    "claims_of ?e ?c1 = claims_of ?e (ensure_claim_list ?e c) @ map ?f claims"
    "graph_manager ?c1 = graph_manager (ensure_claim_list ?e c)"
    "handled_contradictions ?c1 = handled_contradictions (ensure_claim_list ?e c)"
    using foldl_append_claim [where ename = ?e and f = ?f and claims = claims,
        OF ensure_claim_list_present] by simp_all
  have e: "graph_manager (ensure_claim_list ?e c) = graph_manager c"
    "handled_contradictions (ensure_claim_list ?e c) = handled_contradictions c"
    by (simp_all add: ensure_claim_list_def)
  have len: "2 \<le> length (claims_of ?e ?c1)"
    using assms(2) by (simp add: f)
  have c1: "(get_default (ie_claims data) []) = claims"
    using assms(1) by (simp add: get_default_def)
  show ?thesis
    using len
    by (simp add: inject_contradiction_def Let_def c1 f e delete_claims_def add_contradiction_def
        log_event_def delete_conv')
       (rule exI, intro conjI, rule refl, simp_all)
qed

text \<open>
  C8.  The scripted injection of the bridge carries two claims and the forced verdict
  \<open>CONTRADICTION\<close>; when the analyzer answers \<open>CONSISTENT\<close>, the one alert that the
  driver creates has the verdict of the analyzer, not the forced one: the forced verdict
  is only the default for an output without a verdict.  The alert has severity \<open>high\<close>
  and entity id \<open>main_street_bridge\<close>, the entity is handled and its claims are gone.
\<close>

theorem inject_contradiction_verdict_not_forced:
  "ie_force_verdict bridge_event = Some ''CONTRADICTION''
   \<and> map (\<lambda>(k, a). (k, entity_id a, severity a, alert_verdict a))
       (contradictions (graph (graph_manager
          (inject_contradiction ''0a1b2c3d'' 9 (Inr (verdict_only ''CONSISTENT'')) bridge_event 5
             (Coordinator_init 0))))) =
       [(''alert_0a1b2c3d'', ''main_street_bridge'', ''high'', CONSISTENT)]
   \<and> handled_contradictions
       (inject_contradiction ''0a1b2c3d'' 9 (Inr (verdict_only ''CONSISTENT'')) bridge_event 5
          (Coordinator_init 0)) = {''Main Street Bridge''}
   \<and> signal_claims
       (inject_contradiction ''0a1b2c3d'' 9 (Inr (verdict_only ''CONSISTENT'')) bridge_event 5
          (Coordinator_init 0)) = []"
  by (simp add: inject_contradiction_def bridge_event_def verdict_only_def Coordinator_init_def
      Manager_init_def get_default_def ensure_claim_list_def append_claim_def claims_of_def
      delete_claims_def add_contradiction_def log_event_def entity_id_of_bridge
      verdict_map_get_def action_map_get_def str_or_def Let_def)

section \<open>The contradiction detector\<close>

lemma parse_urgency_high: "parse_urgency ''high'' = Inr HIGH"
  by code_simp

subsection \<open>One call at a time\<close>

lemma set_values_update:
  "set (map snd (AList.update k v al)) \<subseteq> insert v (set (map snd al))"
  by (induction al) auto

lemma count_values_update:
  "length (filter P (map snd (AList.update k v al))) \<le>
     length (filter P (map snd al)) + (if P v then 1 else 0)"
  by (induction al) auto

lemma count_values_update_same:
  "map_of al k = Some w \<Longrightarrow> P w = P v \<Longrightarrow>
   length (filter P (map snd (AList.update k v al))) = length (filter P (map snd al))"
  by (induction al) auto

lemma detector_alert_entity_name:
  "detector_alert uid now ename claims ver_data = Inr alert \<Longrightarrow> entity_name alert = ename"
  by (auto simp: detector_alert_def split: pyval.splits if_splits sum.splits)

lemma detector_invariant_delete_claims:
  "detector_invariant pending (delete_claims ename c) = detector_invariant pending c"
  by (simp add: detector_invariant_def delete_claims_def alerts_about_def alerts_def)

lemma check_scan_ready:
  "detector_invariant {} c \<Longrightarrow> task_ready (check_scan snapshot c) c"
  by (induction snapshot) auto

lemma add_alert_invariant:
  assumes inv: "detector_invariant {} c"
    and fresh: "ename \<notin> handled_contradictions c"
    and name: "entity_name alert = ename"
  shows "detector_invariant {ename}
           (c\<lparr>graph_manager := add_contradiction now alert (graph_manager c)\<rparr>)"
proof -
  let ?c' = "c\<lparr>graph_manager := add_contradiction now alert (graph_manager c)\<rparr>"
  let ?al = "contradictions (graph (graph_manager c))"
  have none: "alerts_about ename c = []"
    using inv fresh by (auto simp: detector_invariant_def alerts_about_def filter_empty_conv)
  have sub: "set (alerts ?c') \<subseteq> insert alert (set (alerts c))"
    using set_values_update [of "alert_id alert" alert ?al]
    by (simp add: alerts_def add_contradiction_def log_event_def)
  have "length (alerts_about n ?c') \<le> 1" for n
  proof -
    have "length (alerts_about n ?c') \<le>
            length (alerts_about n c) + (if entity_name alert = n then 1 else 0)"
      using count_values_update [of "\<lambda>a. entity_name a = n" "alert_id alert" alert ?al]
      by (simp add: alerts_about_def alerts_def add_contradiction_def log_event_def)
    moreover have "length (alerts_about n c) \<le> 1"
      using inv by (simp add: detector_invariant_def)
    ultimately show ?thesis
      using none name by (cases "n = ename") auto
  qed
  moreover have "entity_name a \<in> {ename} \<union> handled_contradictions ?c'" if "a \<in> set (alerts ?c')" for a
    using that sub inv name by (auto simp: detector_invariant_def)
  ultimately show ?thesis
    by (simp add: detector_invariant_def)
qed

lemma after_verification_ready:
  assumes "detector_invariant {} c" and "ename \<notin> handled_contradictions c"
    and "after_verification uid now outcome ename claims rest c = (t, c')"
  shows "task_ready t c'"
proof -
  have d: "task_ready (check_scan rest (delete_claims ename c)) (delete_claims ename c)"
    using assms(1)
    by (intro check_scan_ready) (simp add: detector_invariant_delete_claims)
  have k: "task_ready (check_scan rest c) c"
    using assms(1) by (rule check_scan_ready)
  show ?thesis
  proof (cases outcome)
    case (Inl e)
    then show ?thesis using assms(3) d by (auto simp: after_verification_def Let_def)
  next
    case (Inr ver_data)
    show ?thesis
    proof (cases "vd_verdict ver_data \<in> {Some ''CONTRADICTION'', Some ''TEMPORAL_GAP''}")
      case False
      then show ?thesis using assms(3) k Inr by (auto simp: after_verification_def)
    next
      case True
      show ?thesis
      proof (cases "detector_alert uid now ename (claim_lists c claims) ver_data")
        case (Inl e)
        then show ?thesis
          using assms(3) d Inr True by (auto simp: after_verification_def Let_def)
      next
        case (Inr alert)
        have "detector_invariant {ename}
                (c\<lparr>graph_manager := add_contradiction now alert (graph_manager c)\<rparr>)"
          using assms(1,2) detector_alert_entity_name [OF Inr] by (rule add_alert_invariant)
        then show ?thesis
          using assms(3) \<open>outcome = Inr ver_data\<close> True Inr
          by (auto simp: after_verification_def)
      qed
    qed
  qed
qed

lemma after_broadcast_invariant:
  "detector_invariant {ename} c \<Longrightarrow> detector_invariant {} (snd (after_broadcast ename c))"
  by (auto simp: after_broadcast_def detector_invariant_def delete_claims_def alerts_about_def
      alerts_def)

lemma check_drive_invariant:
  "task_ready t c \<Longrightarrow> detector_invariant {} (check_drive outcomes t c)"
proof (induction outcomes t c rule: check_drive.induct)
  case (1 outcomes c)
  then show ?case by simp
next
  case (2 outcomes ename c)
  then show ?case by (simp add: after_broadcast_invariant)
next
  case (3 ename claims rest c)
  then show ?case by simp
next
  case (4 uid now outcome outcomes ename claims rest c)
  obtain t c' where r: "after_verification uid now outcome ename claims rest c = (t, c')"
    by (cases "after_verification uid now outcome ename claims rest c")
  have "task_ready t c'"
    using "4.prems" r by (auto intro: after_verification_ready)
  then show ?case
    using "4.IH" [OF r [symmetric]] r by simp
qed

lemma append_claim_frame:
  "graph_manager (append_claim ename claim c) = graph_manager c"
  "handled_contradictions (append_claim ename claim c) = handled_contradictions c"
  "graph_manager (ensure_claim_list ename c) = graph_manager c"
  "handled_contradictions (ensure_claim_list ename c) = handled_contradictions c"
  by (simp_all add: append_claim_def ensure_claim_list_def split: option.splits)

lemma accumulate_claims_frame:
  "graph_manager (accumulate_claims now signal_id data claims c) = graph_manager c \<and>
   handled_contradictions (accumulate_claims now signal_id data claims c) = handled_contradictions c"
  by (induction claims arbitrary: c) (simp_all add: Let_def append_claim_frame)

lemma text_signal_invariant:
  "detector_invariant {} c \<Longrightarrow>
   detector_invariant {} (update_graph_from_text_output now signal_id data c)"
  by (simp add: update_graph_from_text_output_def detector_invariant_def alerts_about_def
      alerts_def accumulate_claims_frame)

lemma resolve_invariant:
  assumes "detector_invariant {} c"
  shows "detector_invariant {}
           (c\<lparr>graph_manager := snd (resolve_contradiction now aid res who (graph_manager c))\<rparr>)"
proof (cases "map_of (contradictions (graph (graph_manager c))) aid")
  case None
  then show ?thesis
    using assms
    by (simp add: resolve_contradiction_def detector_invariant_def alerts_about_def alerts_def)
next
  case (Some a)
  let ?a = "a\<lparr>resolved := True, resolution := Some res, resolved_by := Some who,
               resolved_at := Some now\<rparr>"
  let ?al = "contradictions (graph (graph_manager c))"
  let ?c' = "c\<lparr>graph_manager := snd (resolve_contradiction now aid res who (graph_manager c))\<rparr>"
  have al: "alerts ?c' = map snd (AList.update aid ?a ?al)"
    "handled_contradictions ?c' = handled_contradictions c"
    using Some by (simp_all add: resolve_contradiction_def alerts_def log_event_def Let_def)
  have old: "a \<in> set (alerts c)"
    using map_of_SomeD [OF Some] by (force simp: alerts_def)
  have sub: "set (alerts ?c') \<subseteq> insert ?a (set (alerts c))"
    using set_values_update [of aid ?a ?al] by (simp add: al(1)) (simp add: alerts_def)
  have count: "length (alerts_about n ?c') = length (alerts_about n c)" for n
    using count_values_update_same [OF Some, of "\<lambda>x. entity_name x = n" ?a]
    by (simp add: alerts_about_def al(1)) (simp add: alerts_def)
  have "entity_name x \<in> handled_contradictions c" if "x \<in> set (alerts ?c')" for x
  proof -
    have "x = ?a \<or> x \<in> set (alerts c)"
      using that sub by blast
    then show ?thesis
      using assms old by (auto simp: detector_invariant_def)
  qed
  then show ?thesis
    using assms count by (simp add: detector_invariant_def al(2))
qed

lemma seq_apply_invariant:
  "detector_invariant {} c \<Longrightarrow> detector_invariant {} (seq_apply step c)"
proof (cases step)
  case (Text_signal now signal_id data)
  then show "detector_invariant {} c \<Longrightarrow> ?thesis"
    by (simp add: text_signal_invariant)
next
  case (Check_signal outcomes)
  then show "detector_invariant {} c \<Longrightarrow> ?thesis"
    by (simp add: check_drive_invariant check_scan_ready
        check_contradictions_start_def)
next
  case (Resolve now aid res who)
  then show "detector_invariant {} c \<Longrightarrow> ?thesis"
    by (simp add: resolve_invariant)
qed

lemma seq_run_invariant:
  "detector_invariant {} c \<Longrightarrow> detector_invariant {} (seq_run steps c)"
  by (induction steps arbitrary: c) (simp_all add: seq_apply_invariant)

text \<open>
  With one call of the detector at a time, from the fresh coordinator, no entity name
  ever has two unresolved alerts, whatever the analyzer answers.
\<close>

lemma sequential_at_most_one_alert:
  "length (unresolved_alerts name (seq_run steps (Coordinator_init t0))) \<le> 1"
proof -
  have "detector_invariant {} (Coordinator_init t0)"
    by (simp add: detector_invariant_def Coordinator_init_def Manager_init_def alerts_about_def
        alerts_def)
  then have "detector_invariant {} (seq_run steps (Coordinator_init t0))"
    by (rule seq_run_invariant)
  then have "length (alerts_about name (seq_run steps (Coordinator_init t0))) \<le> 1"
    by (simp add: detector_invariant_def)
  moreover have "length (unresolved_alerts name c) \<le> length (alerts_about name c)" for c
  proof -
    have "unresolved_alerts name c = filter (\<lambda>a. \<not> resolved a) (alerts_about name c)"
      by (simp add: unresolved_alerts_def alerts_about_def alerts_def conj_commute)
    then show ?thesis by simp
  qed
  ultimately show ?thesis
    using le_trans by blast
qed

text \<open>
  C2.  Two calls of \<open>_check_contradictions\<close> in flight at once (two image signals
  outside simulation mode, after a text signal left two claims about the bridge) both
  read the entity as not handled before either stores its alert: the graph ends with
  two unresolved alerts of the detector for the same entity name.
\<close>

theorem detector_race_two_alerts:
  "map (\<lambda>a. (alert_id a, entity_name a, resolved a))
       (unresolved_alerts ''Main Street Bridge''
          (snd (sched_run racing_schedule ([], bridge_coordinator)))) =
     [(''alert_aaaaaaaa'', ''Main Street Bridge'', False),
      (''alert_bbbbbbbb'', ''Main Street Bridge'', False)]
   \<and> fst (sched_run racing_schedule ([], bridge_coordinator)) = [Finished, Await_broadcast ''Main Street Bridge'']"
proof -
  have c0: "signal_claims bridge_coordinator = [(''Main Street Bridge'', 0)]"
    "length (claim_lists bridge_coordinator 0) = 2"
    "handled_contradictions bridge_coordinator = {}"
    "contradictions (graph (graph_manager bridge_coordinator)) = []"
    "\<not> simulation_running bridge_coordinator"
    by (simp_all add: bridge_coordinator_def update_graph_from_text_output_def bridge_report_def
        Coordinator_init_def Manager_init_def get_default_def or_else_def ensure_claim_list_def
        append_claim_def Let_def)
  have al: "detector_alert uid now ''Main Street Bridge'' cl (verdict_only ''CONTRADICTION'') =
              Inr \<lparr>alert_id = ''alert_'' @ uid, entity_id = ''main_street_bridge'',
                   entity_type = ''infrastructure'', entity_name = ''Main Street Bridge'',
                   alert_claims = take 2 cl, alert_verdict = CONTRADICTION, severity = ''high'',
                   temporal_analysis = None, recommended_action = FLAG_FOR_HUMAN,
                   recommended_action_details = [], alert_urgency = HIGH, alert_created_at = now,
                   resolved = False, resolution = None, resolved_by = None, resolved_at = None\<rparr>"
    for uid now cl
    by (simp add: detector_alert_def verdict_only_def first_severity_def or_else_def dict_get_def
        get_default_def parse_urgency_high entity_id_of_bridge
        verdict_map_get_def action_map_get_def)
  show ?thesis
    by (simp add: racing_schedule_def check_contradictions_start_def c0 after_verification_def
        after_broadcast_def al verdict_only_def [of "''CONTRADICTION''", THEN arg_cong [where f = vd_verdict]]
        delete_claims_def add_contradiction_def log_event_def unresolved_alerts_def Let_def)
qed

end
